theory Spec2Isabelle
  imports Complex_Main "HOL-Library.Multiset"
begin

section \<open>The image cache service and its collaborators\<close>

text \<open>
  The development embeds \<^verbatim>\<open>ImageCacheService\<close> (the class of
  \<^verbatim>\<open>app/services/ImageCacheService.ts\<close>). The service holds two fields,
  \<^verbatim>\<open>isEnabled\<close> and \<^verbatim>\<open>cacheSize\<close>, and talks to three collaborators:
  expo's \<^verbatim>\<open>FileSystem\<close>, \<^verbatim>\<open>AsyncStorage\<close> and the JavaScript runtime
  (\<^verbatim>\<open>Date.now\<close>, \<^verbatim>\<open>Math.random\<close>). Every method is \<^verbatim>\<open>async\<close>; following the
  single logical thread of control of the design, a method is a function from the world
  before the call to its outcome and the world after it. A rejected promise is the value
  \<open>Inl e\<close>, and \<^verbatim>\<open>try { ... } catch\<close> is the combinator \<open>try_catch\<close>.
  Output to \<^verbatim>\<open>console.error\<close> is not modelled.
\<close>

subsection \<open>The world\<close>

text \<open>Every call made to \<^verbatim>\<open>FileSystem\<close> or \<^verbatim>\<open>AsyncStorage\<close>, with its arguments.\<close>

datatype call =
    GetInfo string bool
  | MakeDirectory string
  | Download string string
  | Delete string bool
  | ReadDirectory string
  | GetItem string
  | SetItem string string

text \<open>The only errors in this code are rejections of collaborator calls.\<close>

datatype error = Rejected call

text \<open>The result of \<^verbatim>\<open>FileSystem.getInfoAsync\<close>: \<^verbatim>\<open>{exists, uri, size, isDirectory}\<close>.\<close>

record FileInfo =
  info_exists :: bool
  info_uri :: string
  info_size :: nat
  info_isDirectory :: bool

text \<open>\<^verbatim>\<open>type CacheFileInfo = {uri, size, modificationTime}\<close>\<close>

record CacheFileInfo =
  uri :: string
  size' :: nat
  modificationTime :: rat

text \<open>
  The world: the two fields of the service, and what its collaborators hold.
  \<^item> \<open>dir\<close> is the cache directory: \<open>None\<close> when it does not exist, otherwise its
    blobs as pairs of a file name and a byte size, in the order they were written
    (oldest first);
  \<^item> \<open>storage\<close> is the key-value store behind \<^verbatim>\<open>AsyncStorage\<close>;
  \<^item> \<open>remote\<close> gives the byte size of the body served for a URL (\<open>None\<close>: the
    download fails);
  \<^item> \<open>faults\<close> is a schedule of injected failures: each collaborator call takes the
    next entry, and rejects when it is \<open>True\<close> (an exhausted schedule injects nothing);
  \<^item> \<open>now\<close> is what \<^verbatim>\<open>Date.now()\<close> returns (the clock stands still during a run)
    and \<open>randoms\<close> are the successive results of \<^verbatim>\<open>Math.random()\<close>, \<open>0\<close> once the list
    is used up;
  \<^item> \<open>calls\<close> records every collaborator call made so far, latest last.
\<close>

record world =
  isEnabled :: bool
  cacheSize :: int
  dir :: "(string \<times> nat) list option"
  storage :: "string \<rightharpoonup> string"
  remote :: "string \<rightharpoonup> nat"
  faults :: "bool list"
  now :: int
  randoms :: "rat list"
  calls :: "call list"

type_synonym 'a io = "world \<Rightarrow> (error + 'a) \<times> world"

definition io_return :: "'a \<Rightarrow> 'a io" where
  "io_return x = (\<lambda>w. (Inr x, w))"

definition io_bind :: "'a io \<Rightarrow> ('a \<Rightarrow> 'b io) \<Rightarrow> 'b io" where
  "io_bind m f = (\<lambda>w. case m w of (Inl e, w') \<Rightarrow> (Inl e, w') | (Inr x, w') \<Rightarrow> f x w')"

definition try_catch :: "'a io \<Rightarrow> (error \<Rightarrow> 'a io) \<Rightarrow> 'a io" where
  "try_catch m h = (\<lambda>w. case m w of (Inl e, w') \<Rightarrow> h e w' | (Inr x, w') \<Rightarrow> (Inr x, w'))"

text \<open>
  A collaborator call is recorded and takes the next entry of the fault schedule; unless
  that entry rejects it, it runs against the world.
\<close>

definition nextFault :: "world \<Rightarrow> bool" where
  "nextFault w = (case faults w of [] \<Rightarrow> False | b # bs \<Rightarrow> b)"

definition called :: "call \<Rightarrow> world \<Rightarrow> world" where
  "called c w = w\<lparr>calls := calls w @ [c], faults := tl (faults w)\<rparr>"

definition invoke :: "call \<Rightarrow> 'a io \<Rightarrow> 'a io" where
  "invoke c body = (\<lambda>w. if nextFault w then (Inl (Rejected c), called c w) else body (called c w))"

subsection \<open>The file system\<close>

text \<open>
  \<^verbatim>\<open>FileSystem.cacheDirectory\<close> is given by the platform; a fixed directory URI stands
  for it. \<^verbatim>\<open>const IMAGE_CACHE_DIR = FileSystem.cacheDirectory + 'images/'\<close>.
\<close>

definition cacheDirectory :: string where
  "cacheDirectory = ''file:///cache/''"

definition IMAGE_CACHE_DIR :: string where
  "IMAGE_CACHE_DIR = cacheDirectory @ ''images/''"

text \<open>The name of the blob a path inside the cache directory denotes.\<close>

definition blobName :: "string \<Rightarrow> string option" where
  "blobName path =
     (let n = length IMAGE_CACHE_DIR in
      if take n path = IMAGE_CACHE_DIR \<and> drop n path \<noteq> [] then Some (drop n path) else None)"

definition absent :: "string \<Rightarrow> FileInfo" where
  "absent path = \<lparr>info_exists = False, info_uri = path, info_size = 0, info_isDirectory = False\<rparr>"

text \<open>
  What \<^verbatim>\<open>getInfoAsync\<close> reports. The size of the cache directory is the sum of the
  sizes of its blobs (the design's "recompute by summing sizes of all blobs").
\<close>

definition stat :: "string \<Rightarrow> world \<Rightarrow> FileInfo" where
  "stat path w =
     (if path = IMAGE_CACHE_DIR then
        (case dir w of
           None \<Rightarrow> absent path
         | Some fs \<Rightarrow> \<lparr>info_exists = True, info_uri = path,
                       info_size = sum_list (map snd fs), info_isDirectory = True\<rparr>)
      else
        (case dir w of
           None \<Rightarrow> absent path
         | Some fs \<Rightarrow>
             (case blobName path of
                None \<Rightarrow> absent path
              | Some name \<Rightarrow>
                  (case map_of fs name of
                     None \<Rightarrow> absent path
                   | Some n \<Rightarrow> \<lparr>info_exists = True, info_uri = path,
                                 info_size = n, info_isDirectory = False\<rparr>))))"

definition getInfoAsync :: "string \<Rightarrow> bool \<Rightarrow> FileInfo io" where
  "getInfoAsync path withSize = invoke (GetInfo path withSize) (\<lambda>w. (Inr (stat path w), w))"

text \<open>\<^verbatim>\<open>makeDirectoryAsync(path, { intermediates: true })\<close>: no error when the directory exists.\<close>

definition makeDirectoryAsync :: "string \<Rightarrow> unit io" where
  "makeDirectoryAsync path = invoke (MakeDirectory path) (\<lambda>w.
     if path = IMAGE_CACHE_DIR then
       (Inr (), w\<lparr>dir := Some (case dir w of None \<Rightarrow> [] | Some fs \<Rightarrow> fs)\<rparr>)
     else (Inl (Rejected (MakeDirectory path)), w))"

text \<open>
  \<^verbatim>\<open>downloadAsync(url, path)\<close> fetches the body and stores it under \<open>path\<close>, replacing a
  blob of the same name; it yields the URI of the stored file. It rejects when the fetch
  fails, when the cache directory is missing or when \<open>path\<close> is not a file in it.
\<close>

definition writeBlob :: "string \<Rightarrow> nat \<Rightarrow> (string \<times> nat) list \<Rightarrow> (string \<times> nat) list" where
  "writeBlob name n fs = filter (\<lambda>p. fst p \<noteq> name) fs @ [(name, n)]"

definition downloadAsync :: "string \<Rightarrow> string \<Rightarrow> string io" where
  "downloadAsync url path = invoke (Download url path) (\<lambda>w.
     case remote w url of
       None \<Rightarrow> (Inl (Rejected (Download url path)), w)
     | Some n \<Rightarrow>
         (case dir w of
            None \<Rightarrow> (Inl (Rejected (Download url path)), w)
          | Some fs \<Rightarrow>
              (case blobName path of
                 None \<Rightarrow> (Inl (Rejected (Download url path)), w)
               | Some name \<Rightarrow> (Inr path, w\<lparr>dir := Some (writeBlob name n fs)\<rparr>))))"

text \<open>
  \<^verbatim>\<open>deleteAsync(path, { idempotent })\<close> removes a blob, or the directory with all its
  blobs; deleting what does not exist rejects unless \<open>idempotent\<close> is set.
\<close>

definition deleteAsync :: "string \<Rightarrow> bool \<Rightarrow> unit io" where
  "deleteAsync path idempotent = invoke (Delete path idempotent) (\<lambda>w.
     let missing = (if idempotent then (Inr (), w) else (Inl (Rejected (Delete path idempotent)), w)) in
     case dir w of
       None \<Rightarrow> missing
     | Some fs \<Rightarrow>
         if path = IMAGE_CACHE_DIR then (Inr (), w\<lparr>dir := None\<rparr>)
         else
           (case blobName path of
              None \<Rightarrow> missing
            | Some name \<Rightarrow>
                if name \<in> set (map fst fs)
                then (Inr (), w\<lparr>dir := Some (filter (\<lambda>p. fst p \<noteq> name) fs)\<rparr>)
                else missing))"

definition readDirectoryAsync :: "string \<Rightarrow> string list io" where
  "readDirectoryAsync path = invoke (ReadDirectory path) (\<lambda>w.
     if path = IMAGE_CACHE_DIR then
       (case dir w of
          None \<Rightarrow> (Inl (Rejected (ReadDirectory path)), w)
        | Some fs \<Rightarrow> (Inr (map fst fs), w))
     else (Inl (Rejected (ReadDirectory path)), w))"

subsection \<open>The settings store and the runtime\<close>

definition getItem :: "string \<Rightarrow> string option io" where
  "getItem k = invoke (GetItem k) (\<lambda>w. (Inr (storage w k), w))"

definition setItem :: "string \<Rightarrow> string \<Rightarrow> unit io" where
  "setItem k v = invoke (SetItem k v) (\<lambda>w. (Inr (), w\<lparr>storage := (storage w)(k \<mapsto> v)\<rparr>))"

definition Date_now :: "world \<Rightarrow> int" where
  "Date_now w = now w"

definition Math_random :: "world \<Rightarrow> rat \<times> world" where
  "Math_random w = (case randoms w of [] \<Rightarrow> (0, w) | r # rs \<Rightarrow> (r, w\<lparr>randoms := rs\<rparr>))"

subsection \<open>The service\<close>

definition IMAGE_CACHE_ENABLED_KEY :: string where
  "IMAGE_CACHE_ENABLED_KEY = ''@EpisodeAlerts:imageCacheEnabled''"

text \<open>\<^verbatim>\<open>const MAX_CACHE_SIZE = 100 * 1024 * 1024\<close>\<close>

definition MAX_CACHE_SIZE :: int where
  "MAX_CACHE_SIZE = 100 * 1024 * 1024"

text \<open>
  The source compares against the module constant \<^verbatim>\<open>MAX_CACHE_SIZE\<close>. The design calls
  the ceiling \<^verbatim>\<open>maxSizeBytes\<close> and states scenarios at other values, so the methods that
  read it take the ceiling as their first argument \<open>M\<close>; the source is the instance
  \<open>M = MAX_CACHE_SIZE\<close>.
\<close>

text \<open>\<^verbatim>\<open>private async setupCacheDirectory()\<close>\<close>

definition setupCacheDirectory :: "unit io" where
  "setupCacheDirectory =
     try_catch
       (io_bind (getInfoAsync IMAGE_CACHE_DIR False) (\<lambda>dirInfo.
          if \<not> info_exists dirInfo then makeDirectoryAsync IMAGE_CACHE_DIR
          else io_return ()))
       (\<lambda>error. io_return ())"

text \<open>
  \<^verbatim>\<open>public async calculateCacheSize()\<close>: \<^verbatim>\<open>dirInfo.size || 0\<close> is the reported size, a
  missing size being \<open>0\<close>.
\<close>

definition calculateCacheSize :: "int io" where
  "calculateCacheSize =
     try_catch
       (io_bind (getInfoAsync IMAGE_CACHE_DIR True) (\<lambda>dirInfo. \<lambda>w.
          let w' = (if info_exists dirInfo \<and> info_isDirectory dirInfo
                    then w\<lparr>cacheSize := int (info_size dirInfo)\<rparr>
                    else w\<lparr>cacheSize := 0\<rparr>)
          in (Inr (cacheSize w'), w')))
       (\<lambda>error. io_return 0)"

text \<open>\<^verbatim>\<open>private async loadSettings()\<close>: \<^verbatim>\<open>this.isEnabled = cacheEnabled !== 'false'\<close>.\<close>

definition loadSettings :: "unit io" where
  "loadSettings =
     try_catch
       (io_bind (getItem IMAGE_CACHE_ENABLED_KEY) (\<lambda>cacheEnabled. \<lambda>w.
          io_bind calculateCacheSize (\<lambda>_. io_return ())
            (w\<lparr>isEnabled := (cacheEnabled \<noteq> Some ''false'')\<rparr>)))
       (\<lambda>error. io_return ())"

text \<open>\<^verbatim>\<open>public async clearCache()\<close>\<close>

definition clearCache :: "unit io" where
  "clearCache =
     try_catch
       (io_bind (getInfoAsync IMAGE_CACHE_DIR False) (\<lambda>dirInfo.
          io_bind
            (if info_exists dirInfo then
               io_bind (deleteAsync IMAGE_CACHE_DIR True) (\<lambda>_. makeDirectoryAsync IMAGE_CACHE_DIR)
             else io_return ())
            (\<lambda>_. \<lambda>w. (Inr (), w\<lparr>cacheSize := 0\<rparr>))))
       (\<lambda>error. io_return ())"

text \<open>\<^verbatim>\<open>public async setEnabled(enabled)\<close>: no \<^verbatim>\<open>try\<close> around the body.\<close>

definition toString :: "bool \<Rightarrow> string" where
  "toString b = (if b then ''true'' else ''false'')"

definition setEnabled :: "bool \<Rightarrow> unit io" where
  "setEnabled enabled = (\<lambda>w.
     io_bind (setItem IMAGE_CACHE_ENABLED_KEY (toString enabled)) (\<lambda>_.
        if \<not> enabled then clearCache else io_return ())
       (w\<lparr>isEnabled := enabled\<rparr>))"

text \<open>\<^verbatim>\<open>public isImageCacheEnabled()\<close>\<close>

definition isImageCacheEnabled :: "world \<Rightarrow> bool" where
  "isImageCacheEnabled w = isEnabled w"

text \<open>
  \<^verbatim>\<open>public getCacheSizeInMB()\<close>: \<^verbatim>\<open>Math.round((cacheSize / 1024 / 1024) * 100) / 100\<close>,
  over the rationals (\<^verbatim>\<open>Math.round\<close> rounds half up, as \<open>round\<close> does).
\<close>

definition getCacheSizeInMB :: "world \<Rightarrow> rat" where
  "getCacheSizeInMB w = of_int (round ((of_int (cacheSize w) / 1024 / 1024) * 100 :: rat)) / 100"

text \<open>
  \<^verbatim>\<open>private getFilenameFromUrl(url)\<close>: the part after the last \<^verbatim>\<open>/\<close>, every character
  outside \<^verbatim>\<open>[a-zA-Z0-9.]\<close> replaced by an underscore. URLs are taken as ASCII strings.
\<close>

definition keepChar :: "char \<Rightarrow> bool" where
  "keepChar c = (let n = (of_char c :: nat) in
     (97 \<le> n \<and> n \<le> 122) \<or> (65 \<le> n \<and> n \<le> 90) \<or> (48 \<le> n \<and> n \<le> 57) \<or> c = CHR ''.'')"

definition lastPart :: "string \<Rightarrow> string" where
  "lastPart url = rev (takeWhile (\<lambda>c. c \<noteq> CHR ''/'') (rev url))"

definition getFilenameFromUrl :: "string \<Rightarrow> string" where
  "getFilenameFromUrl url = map (\<lambda>c. if keepChar c then c else CHR ''_'') (lastPart url)"

text \<open>
  The first loop of \<^verbatim>\<open>trimCache\<close>: stat every listed file and give each one that exists
  a simulated modification time \<^verbatim>\<open>Date.now() - (Math.random() * 86400000)\<close>;
  \<^verbatim>\<open>fileInfo.size || 0\<close> is the reported size.
\<close>

fun statLoop :: "string list \<Rightarrow> CacheFileInfo list \<Rightarrow> (CacheFileInfo list) io" where
  "statLoop [] fileInfos w = (Inr fileInfos, w)"
| "statLoop (filename # files) fileInfos w =
     (case getInfoAsync (IMAGE_CACHE_DIR @ filename) True w of
        (Inl e, w1) \<Rightarrow> (Inl e, w1)
      | (Inr fileInfo, w1) \<Rightarrow>
          if info_exists fileInfo then
            (case Math_random w1 of (r, w2) \<Rightarrow>
               statLoop files
                 (fileInfos @ [\<lparr>uri = info_uri fileInfo, size' = info_size fileInfo,
                                modificationTime = of_int (Date_now w1) - r * 86400000\<rparr>]) w2)
          else statLoop files fileInfos w1)"

text \<open>
  \<^verbatim>\<open>const targetSize = MAX_CACHE_SIZE * 0.7\<close>, with \<open>0.7\<close> as the rational \<open>7/10\<close>. At
  \<open>MAX_CACHE_SIZE\<close> the product in double precision is the same number, 73400320. Sizes
  are whole numbers of bytes, far below \<open>2^53\<close>, so the arithmetic on them is exact.
\<close>

definition targetSize :: "int \<Rightarrow> rat" where
  "targetSize M = of_int M * (7 / 10)"

text \<open>
  The second loop of \<^verbatim>\<open>trimCache\<close>: delete in order while the running total
  \<open>currentSize\<close> is above the target.
\<close>

fun deleteLoop :: "int \<Rightarrow> CacheFileInfo list \<Rightarrow> int \<Rightarrow> unit io" where
  "deleteLoop M [] currentSize w = (Inr (), w)"
| "deleteLoop M (fileInfo # fileInfos) currentSize w =
     (if of_int currentSize \<le> targetSize M then (Inr (), w)
      else
        (case deleteAsync (uri fileInfo) False w of
           (Inl e, w1) \<Rightarrow> (Inl e, w1)
         | (Inr _, w1) \<Rightarrow> deleteLoop M fileInfos (currentSize - int (size' fileInfo)) w1))"

text \<open>
  \<^verbatim>\<open>private async trimCache()\<close>; the body of its \<^verbatim>\<open>try\<close> block is \<open>trimBody\<close>.
  \<^verbatim>\<open>fileInfos.sort((a, b) => a.modificationTime - b.modificationTime)\<close> is a stable sort
  by the simulated time, and \<^verbatim>\<open>let currentSize = this.cacheSize\<close> reads the tracked size.
\<close>

definition trimBody :: "int \<Rightarrow> unit io" where
  "trimBody M =
     io_bind (readDirectoryAsync IMAGE_CACHE_DIR) (\<lambda>files.
       if length files = 0 then io_return ()
       else
         io_bind (statLoop files []) (\<lambda>fileInfos.
           io_bind (\<lambda>w. deleteLoop M (sort_key modificationTime fileInfos) (cacheSize w) w) (\<lambda>_.
             io_bind calculateCacheSize (\<lambda>_. io_return ()))))"

definition trimCache :: "int \<Rightarrow> unit io" where
  "trimCache M = try_catch (trimBody M) (\<lambda>error. io_return ())"

text \<open>\<^verbatim>\<open>private async updateCacheSize(newFileSize)\<close>\<close>

definition updateCacheSize :: "int \<Rightarrow> int \<Rightarrow> unit io" where
  "updateCacheSize M newFileSize =
     try_catch
       (\<lambda>w. let w' = w\<lparr>cacheSize := cacheSize w + newFileSize\<rparr> in
             if cacheSize w' > M then trimCache M w' else (Inr (), w'))
       (\<lambda>error. io_return ())"

text \<open>
  \<^verbatim>\<open>public async getCachedImageUri(url)\<close>. The body of its \<^verbatim>\<open>try\<close> block is
  \<open>fetchOrHit\<close>; \<^verbatim>\<open>fileInfo.exists && fileInfo.size\<close> is false for a size of \<open>0\<close>.
\<close>

definition fetchOrHit :: "int \<Rightarrow> string \<Rightarrow> string io" where
  "fetchOrHit M url =
     (let filename = getFilenameFromUrl url;
          filePath = IMAGE_CACHE_DIR @ filename
      in io_bind (getInfoAsync filePath False) (\<lambda>fileInfo.
           if info_exists fileInfo then io_return (info_uri fileInfo)
           else
             io_bind (downloadAsync url filePath) (\<lambda>downloadResult.
               io_bind (getInfoAsync filePath True) (\<lambda>fileInfo.
                 io_bind
                   (if info_exists fileInfo \<and> info_size fileInfo \<noteq> 0
                    then updateCacheSize M (int (info_size fileInfo))
                    else io_return ())
                   (\<lambda>_. io_return downloadResult)))))"

definition getCachedImageUri :: "int \<Rightarrow> string \<Rightarrow> string io" where
  "getCachedImageUri M url =
     (\<lambda>w. if \<not> isEnabled w \<or> url = [] then (Inr url, w)
           else try_catch (fetchOrHit M url) (\<lambda>error. io_return url) w)"

subsection \<open>Notions used by the properties\<close>

text \<open>No collaborator call is rejected by the fault schedule from here on.\<close>

definition no_faults :: "world \<Rightarrow> bool" where
  "no_faults w = (True \<notin> set (faults w))"

text \<open>None of the next \<open>m\<close> collaborator calls is rejected by the fault schedule.\<close>

definition okFor :: "nat \<Rightarrow> world \<Rightarrow> bool" where
  "okFor m w = (True \<notin> set (take m (faults w)))"

text \<open>The entries of the blob store; a missing directory holds none.\<close>

definition blobs :: "world \<Rightarrow> (string \<times> nat) list" where
  "blobs w = (case dir w of None \<Rightarrow> [] | Some fs \<Rightarrow> fs)"

text \<open>
  What a caller can observe of the service and its stores: the flag, the tracked size,
  the cache directory and the settings. (The fault schedule, the random numbers and the
  record of calls are left out.)
\<close>

definition observable ::
  "world \<Rightarrow> bool \<times> int \<times> (string \<times> nat) list option \<times> (string \<rightharpoonup> string)" where
  "observable w = (isEnabled w, cacheSize w, dir w, storage w)"

text \<open>The number of downloads among the calls recorded so far.\<close>

fun isDownload :: "call \<Rightarrow> bool" where
  "isDownload (Download url path) = True"
| "isDownload c = False"

definition fetches :: "world \<Rightarrow> nat" where
  "fetches w = length (filter isDownload (calls w))"

text \<open>The deletes among the calls recorded.\<close>

fun isDelete :: "call \<Rightarrow> bool" where
  "isDelete (Delete path idempotent) = True"
| "isDelete c = False"

text \<open>
  One of the three collaborator calls that the miss path of \<^verbatim>\<open>getCachedImageUri\<close> makes
  before it records the size is rejected: the existence check, the download, or the stat
  of the written file.
\<close>

definition missStepRejected :: "string \<Rightarrow> world \<Rightarrow> bool" where
  "missStepRejected url w =
     (let filePath = IMAGE_CACHE_DIR @ getFilenameFromUrl url in
      case getInfoAsync filePath False w of
        (Inl e, w1) \<Rightarrow> True
      | (Inr fileInfo, w1) \<Rightarrow>
          \<not> info_exists fileInfo \<and>
          (case downloadAsync url filePath w1 of
             (Inl e, w2) \<Rightarrow> True
           | (Inr downloadResult, w2) \<Rightarrow>
               (case getInfoAsync filePath True w2 of
                  (Inl e, w3) \<Rightarrow> True
                | (Inr fileInfo, w3) \<Rightarrow> False)))"

text \<open>
  The running total \<open>currentSize\<close> of the deletion pass after \<open>j\<close> deletions, started
  at \<open>c\<close>.
\<close>

definition runningTotal :: "int \<Rightarrow> CacheFileInfo list \<Rightarrow> nat \<Rightarrow> int" where
  "runningTotal c infos j = c - sum_list (map (\<lambda>f. int (size' f)) (take j infos))"

text \<open>
  The blob an element of \<open>fileInfos\<close> stands for, and the fact that its \<open>uri\<close> is the
  path of that blob in the cache directory.
\<close>

definition entry :: "CacheFileInfo \<Rightarrow> string \<times> nat" where
  "entry f = (drop (length IMAGE_CACHE_DIR) (uri f), size' f)"

definition inStore :: "CacheFileInfo \<Rightarrow> bool" where
  "inStore f = (uri f = IMAGE_CACHE_DIR @ fst (entry f))"

text \<open>
  The \<open>fileInfos\<close> that the first loop of \<^verbatim>\<open>trimCache\<close> builds from the entries of the
  store when none of its stats is rejected: the entry listed at position \<open>i\<close> gets the
  time \<^verbatim>\<open>Date.now() - Math.random() * 86400000\<close> of the \<open>i\<close>-th random number. \<open>trimOrder\<close>
  is that list after \<^verbatim>\<open>fileInfos.sort((a, b) => a.modificationTime - b.modificationTime)\<close>:
  the order in which the second loop goes through the entries.
\<close>

fun simulated :: "int \<Rightarrow> rat list \<Rightarrow> (string \<times> nat) list \<Rightarrow> CacheFileInfo list" where
  "simulated t rs [] = []"
| "simulated t rs ((name, n) # fs) =
     \<lparr>uri = IMAGE_CACHE_DIR @ name, size' = n,
      modificationTime = of_int t - (case rs of [] \<Rightarrow> 0 | r # _ \<Rightarrow> r) * 86400000\<rparr>
     # simulated t (tl rs) fs"

definition trimOrder :: "world \<Rightarrow> CacheFileInfo list" where
  "trimOrder w = sort_key modificationTime (simulated (now w) (randoms w) (blobs w))"

text \<open>
  The number of entries the second loop goes past before its running total, started at
  \<open>c\<close>, is at or below the target (all of them when it never is), and the names of the
  first \<open>k\<close> entries of a list.
\<close>

fun evictions :: "int \<Rightarrow> int \<Rightarrow> CacheFileInfo list \<Rightarrow> nat" where
  "evictions M c [] = 0"
| "evictions M c (f # fs) =
     (if of_int c \<le> targetSize M then 0 else Suc (evictions M (c - int (size' f)) fs))"

definition evicted :: "nat \<Rightarrow> CacheFileInfo list \<Rightarrow> string set" where
  "evicted k infos = set (map (\<lambda>f. fst (entry f)) (take k infos))"

subsection \<open>Concrete worlds\<close>

text \<open>Caching switched off, one blob stored.\<close>

definition w_disabled :: world where
  "w_disabled = \<lparr>isEnabled = False, cacheSize = 5767168, dir = Some [(''a.jpg'', 5767168)],
     storage = Map.empty, remote = [''http://x/b.jpg'' \<mapsto> 7], faults = [], now = 0,
     randoms = [], calls = []\<rparr>"

text \<open>The cache directory does not exist.\<close>

definition w_absent :: world where
  "w_absent = \<lparr>isEnabled = True, cacheSize = 0, dir = None,
     storage = Map.empty, remote = Map.empty, faults = [], now = 0, randoms = [], calls = []\<rparr>"

text \<open>One blob of 5.5 MiB, tracked; every collaborator call succeeds.\<close>

definition w_one :: world where
  "w_one = \<lparr>isEnabled = True, cacheSize = 5767168, dir = Some [(''a.jpg'', 5767168)],
     storage = Map.empty, remote = Map.empty, faults = [], now = 0, randoms = [], calls = []\<rparr>"

text \<open>The same store; the next collaborator call is rejected.\<close>

definition w_first_rejected :: world where
  "w_first_rejected = w_one\<lparr>faults := [True]\<rparr>"

text \<open>The same store; the second collaborator call is rejected.\<close>

definition w_second_rejected :: world where
  "w_second_rejected = w_one\<lparr>faults := [False, True]\<rparr>"

text \<open>
  Three blobs of 40 MiB, written in the order A, B, C, all tracked: 120 MiB against the
  ceiling of 100 MiB. The random numbers give A the earliest simulated time and C the
  latest.
\<close>

definition w_three :: world where
  "w_three = \<lparr>isEnabled = True, cacheSize = 125829120,
     dir = Some [(''A'', 41943040), (''B'', 41943040), (''C'', 41943040)],
     storage = Map.empty, remote = Map.empty, faults = [], now = 1700000000000,
     randoms = [3 / 4, 1 / 2, 1 / 4], calls = []\<rparr>"

text \<open>The same store with the random numbers the other way round: C gets the earliest time.\<close>

definition w_three_reversed :: world where
  "w_three_reversed = w_three\<lparr>randoms := [1 / 4, 1 / 2, 3 / 4]\<rparr>"

text \<open>The same store; the fifth collaborator call, the first delete of a trim, is rejected.\<close>

definition w_three_delete_rejected :: world where
  "w_three_delete_rejected = w_three\<lparr>faults := [False, False, False, False, True]\<rparr>"

text \<open>The same store; the sixth collaborator call, the second delete of a trim, is rejected.\<close>

definition w_three_second_delete_rejected :: world where
  "w_three_second_delete_rejected =
     w_three\<lparr>faults := [False, False, False, False, False, True]\<rparr>"

text \<open>The same store just after C was written: C is on disk but not yet tracked.\<close>

definition w_third_written :: world where
  "w_third_written = w_three\<lparr>cacheSize := 83886080\<rparr>"

definition w_third_written_delete_rejected :: world where
  "w_third_written_delete_rejected =
     w_third_written\<lparr>faults := [False, False, False, False, True]\<rparr>"

text \<open>
  Two blobs of 100 MiB of which only one is tracked, and a blob of one byte just written
  and not yet tracked.
\<close>

definition w_untracked :: world where
  "w_untracked = \<lparr>isEnabled = True, cacheSize = 104857600,
     dir = Some [(''X'', 104857600), (''Y'', 104857600), (''Z'', 1)],
     storage = Map.empty, remote = Map.empty, faults = [], now = 1700000000000,
     randoms = [3 / 4, 1 / 2, 1 / 4], calls = []\<rparr>"

text \<open>
  The scenario of the design at a ceiling of 1000 bytes: A (oldest), B and C (newest) of
  400 bytes each, 1200 bytes tracked. The random numbers give C the earliest simulated
  time.
\<close>

definition w_scenario :: world where
  "w_scenario = \<lparr>isEnabled = True, cacheSize = 1200,
     dir = Some [(''A'', 400), (''B'', 400), (''C'', 400)],
     storage = Map.empty, remote = Map.empty, faults = [], now = 1700000000000,
     randoms = [1 / 4, 1 / 2, 3 / 4], calls = []\<rparr>"

text \<open>An empty cache directory and an image of 2 KiB to fetch.\<close>

definition imageUrl :: string where
  "imageUrl = ''https://img.example/p/a.jpg''"

definition w_empty :: world where
  "w_empty = \<lparr>isEnabled = True, cacheSize = 0, dir = Some [],
     storage = Map.empty, remote = [imageUrl \<mapsto> 2048], faults = [], now = 1700000000000,
     randoms = [], calls = []\<rparr>"

text \<open>The same empty directory and an image one byte larger than the ceiling of 100 MiB.\<close>

definition w_oversized :: world where
  "w_oversized = w_empty\<lparr>remote := [imageUrl \<mapsto> 104857601]\<rparr>"

definition w_exists_rejected :: world where
  "w_exists_rejected = w_empty\<lparr>faults := [True]\<rparr>"

definition w_download_rejected :: world where
  "w_download_rejected = w_empty\<lparr>faults := [False, True]\<rparr>"

definition w_stat_rejected :: world where
  "w_stat_rejected = w_empty\<lparr>faults := [False, False, True]\<rparr>"

text \<open>
  A cache 600 bytes below the ceiling, holding one tracked blob, and the same image to
  fetch. The random numbers give the image, once stored, the earlier simulated time.
\<close>

definition w_nearly_full :: world where
  "w_nearly_full = \<lparr>isEnabled = True, cacheSize = 104857000,
     dir = Some [(''old.jpg'', 104857000)],
     storage = Map.empty, remote = [imageUrl \<mapsto> 2048], faults = [], now = 1700000000000,
     randoms = [1 / 4, 3 / 4], calls = []\<rparr>"

text \<open>The same; the fourth collaborator call, the listing of the trim, is rejected.\<close>

definition w_nearly_full_list_rejected :: world where
  "w_nearly_full_list_rejected = w_nearly_full\<lparr>faults := [False, False, False, True]\<rparr>"

section \<open>Properties\<close>

subsection \<open>Collaborator calls\<close>

lemma nextFault_no_faults [simp]: "no_faults w \<Longrightarrow> \<not> nextFault w"
  by (cases "faults w") (auto simp: nextFault_def no_faults_def)

lemma invoke_no_faults: "no_faults w \<Longrightarrow> invoke c body w = body (called c w)"
  by (simp add: invoke_def)

lemma no_faults_called [simp]: "no_faults w \<Longrightarrow> no_faults (called c w)"
  by (cases "faults w") (auto simp: no_faults_def called_def)

lemma called_fields [simp]:
  "isEnabled (called c w) = isEnabled w" "cacheSize (called c w) = cacheSize w"
  "dir (called c w) = dir w" "storage (called c w) = storage w"
  "remote (called c w) = remote w" "now (called c w) = now w"
  "randoms (called c w) = randoms w" "calls (called c w) = calls w @ [c]"
  by (simp_all add: called_def)

lemma called_upd [simp]:
  "called c (w\<lparr>cacheSize := n\<rparr>) = (called c w)\<lparr>cacheSize := n\<rparr>"
  "called c (w\<lparr>dir := d\<rparr>) = (called c w)\<lparr>dir := d\<rparr>"
  "called c (w\<lparr>isEnabled := b\<rparr>) = (called c w)\<lparr>isEnabled := b\<rparr>"
  "called c (w\<lparr>storage := s\<rparr>) = (called c w)\<lparr>storage := s\<rparr>"
  "called c (w\<lparr>randoms := rs\<rparr>) = (called c w)\<lparr>randoms := rs\<rparr>"
  by (simp_all add: called_def)

lemma no_faults_upd [simp]:
  "no_faults (w\<lparr>cacheSize := n\<rparr>) = no_faults w"
  "no_faults (w\<lparr>dir := d\<rparr>) = no_faults w"
  "no_faults (w\<lparr>isEnabled := b\<rparr>) = no_faults w"
  "no_faults (w\<lparr>storage := s\<rparr>) = no_faults w"
  "no_faults (w\<lparr>randoms := rs\<rparr>) = no_faults w"
  by (simp_all add: no_faults_def)

lemma blobName_append [simp]:
  "blobName (IMAGE_CACHE_DIR @ name) = (if name = [] then None else Some name)"
  by (simp add: blobName_def)

lemma stat_blob:
  "name \<noteq> [] \<Longrightarrow> stat (IMAGE_CACHE_DIR @ name) w =
     (case dir w of
        None \<Rightarrow> absent (IMAGE_CACHE_DIR @ name)
      | Some fs \<Rightarrow>
          (case map_of fs name of
             None \<Rightarrow> absent (IMAGE_CACHE_DIR @ name)
           | Some n \<Rightarrow> \<lparr>info_exists = True, info_uri = IMAGE_CACHE_DIR @ name,
                         info_size = n, info_isDirectory = False\<rparr>))"
  by (simp add: stat_def split: option.splits)

lemma stat_dir:
  "stat IMAGE_CACHE_DIR w =
     (case dir w of
        None \<Rightarrow> absent IMAGE_CACHE_DIR
      | Some fs \<Rightarrow> \<lparr>info_exists = True, info_uri = IMAGE_CACHE_DIR,
                    info_size = sum_list (map snd fs), info_isDirectory = True\<rparr>)"
  by (simp add: stat_def)

lemma stat_called [simp]: "stat path (called c w) = stat path w"
  by (simp add: stat_def)

lemma calls_deleteAsync: "calls (snd (deleteAsync p b w)) = calls w @ [Delete p b]"
  by (simp add: deleteAsync_def invoke_def Let_def split: option.splits)

text \<open>
  Evaluating a run on a concrete world unfolds the combinators, the collaborators and the
  methods built from them.
\<close>

lemmas run_defs = io_bind_def io_return_def try_catch_def invoke_def nextFault_def called_def
  getInfoAsync_def deleteAsync_def readDirectoryAsync_def makeDirectoryAsync_def
  downloadAsync_def writeBlob_def stat_blob stat_dir absent_def Math_random_def Date_now_def
  targetSize_def Let_def trimCache_def trimBody_def calculateCacheSize_def
  updateCacheSize_def getCachedImageUri_def fetchOrHit_def

lemma getFilenameFromUrl_imageUrl [simp]: "getFilenameFromUrl imageUrl = ''a.jpg''"
  by (simp add: imageUrl_def getFilenameFromUrl_def lastPart_def keepChar_def)

lemma imageUrl_nonempty [simp]: "imageUrl \<noteq> []"
  by (simp add: imageUrl_def)

subsection \<open>Where errors stop\<close>

text \<open>A \<^verbatim>\<open>catch\<close> block that only logs turns every outcome into a normal return.\<close>

lemma try_catch_return_unit: "fst (try_catch m (\<lambda>error. io_return ()) w) = Inr ()"
  by (auto simp: try_catch_def io_return_def split: prod.splits sum.splits)

lemma try_catch_return: "\<exists>r. fst (try_catch m (\<lambda>error. io_return x) w) = Inr r"
  by (auto simp: try_catch_def io_return_def split: prod.splits sum.splits)

lemma clearCache_total: "fst (clearCache w) = Inr ()"
  unfolding clearCache_def by (rule try_catch_return_unit)

lemma calculateCacheSize_total: "\<exists>n. fst (calculateCacheSize w) = Inr n"
  unfolding calculateCacheSize_def by (rule try_catch_return)

lemma trimCache_total: "fst (trimCache M w) = Inr ()"
  unfolding trimCache_def by (rule try_catch_return_unit)

lemma updateCacheSize_total: "fst (updateCacheSize M n w) = Inr ()"
  unfolding updateCacheSize_def by (rule try_catch_return_unit)

lemma getCachedImageUri_total: "\<exists>r. fst (getCachedImageUri M url w) = Inr r"
  unfolding getCachedImageUri_def using try_catch_return [of "fetchOrHit M url" url w]
  by auto

text \<open>\<^verbatim>\<open>setEnabled\<close> has no \<^verbatim>\<open>try\<close>: it rejects exactly when the settings write does.\<close>

lemma setEnabled_result:
  "fst (setEnabled enabled w) =
     (if nextFault w then Inl (Rejected (SetItem IMAGE_CACHE_ENABLED_KEY (toString enabled)))
      else Inr ())"
proof -
  have nf: "nextFault (w\<lparr>isEnabled := enabled\<rparr>) = nextFault w"
    by (simp add: nextFault_def)
  show ?thesis
    by (simp add: setEnabled_def io_bind_def setItem_def invoke_def nf io_return_def
        clearCache_total)
qed

lemma setEnabled_rejected:
  "nextFault w \<Longrightarrow>
   setEnabled enabled w =
     (Inl (Rejected (SetItem IMAGE_CACHE_ENABLED_KEY (toString enabled))),
      (called (SetItem IMAGE_CACHE_ENABLED_KEY (toString enabled)) w)\<lparr>isEnabled := enabled\<rparr>)"
  by (simp add: setEnabled_def io_bind_def setItem_def invoke_def nextFault_def)

lemma updateCacheSize_not_rejected [simp]: "updateCacheSize M n w \<noteq> (Inl e, w')"
  using updateCacheSize_total [of M n w] by auto

subsection \<open>What a rejected call leaves behind\<close>

text \<open>
  A rejection names the call that was rejected, and that call is the last one made: the
  enclosing \<^verbatim>\<open>try\<close> block is left at once. No collaborator touches the tracked size.
\<close>

lemma invoke_rejected:
  assumes "invoke c body w = (Inl (Rejected d), w')"
    and "\<And>v v'. body v = (Inl (Rejected d), v') \<Longrightarrow> d = c \<and> v' = v"
  shows "last (calls w') = d \<and> calls w' \<noteq> [] \<and> cacheSize w' = cacheSize w"
proof (cases "nextFault w")
  case True
  with assms(1) show ?thesis by (auto simp: invoke_def)
next
  case False
  with assms(1) have "body (called c w) = (Inl (Rejected d), w')"
    by (simp add: invoke_def)
  from assms(2) [OF this] show ?thesis by simp
qed

lemma invoke_cacheSize:
  assumes "\<And>v. cacheSize (snd (body v)) = cacheSize v"
  shows "cacheSize (snd (invoke c body w)) = cacheSize w"
  using assms [of "called c w"] by (simp add: invoke_def)

lemma getInfoAsync_rejected:
  "getInfoAsync p b w = (Inl (Rejected d), w') \<Longrightarrow>
   last (calls w') = d \<and> calls w' \<noteq> [] \<and> cacheSize w' = cacheSize w"
  unfolding getInfoAsync_def by (erule invoke_rejected) simp

lemma readDirectoryAsync_rejected:
  "readDirectoryAsync p w = (Inl (Rejected d), w') \<Longrightarrow>
   last (calls w') = d \<and> calls w' \<noteq> [] \<and> cacheSize w' = cacheSize w"
  unfolding readDirectoryAsync_def
  by (erule invoke_rejected) (auto split: if_splits option.splits)

lemma deleteAsync_rejected:
  "deleteAsync p b w = (Inl (Rejected d), w') \<Longrightarrow>
   last (calls w') = d \<and> calls w' \<noteq> [] \<and> cacheSize w' = cacheSize w"
  unfolding deleteAsync_def
  by (erule invoke_rejected) (auto simp: Let_def split: if_splits option.splits)

lemma getInfoAsync_cacheSize: "cacheSize (snd (getInfoAsync p b w)) = cacheSize w"
  unfolding getInfoAsync_def by (rule invoke_cacheSize) simp

lemma readDirectoryAsync_cacheSize: "cacheSize (snd (readDirectoryAsync p w)) = cacheSize w"
  unfolding readDirectoryAsync_def by (rule invoke_cacheSize) (simp split: option.splits)

lemma deleteAsync_cacheSize: "cacheSize (snd (deleteAsync p b w)) = cacheSize w"
  unfolding deleteAsync_def by (rule invoke_cacheSize) (simp add: Let_def split: option.splits)

lemma downloadAsync_cacheSize: "cacheSize (snd (downloadAsync u p w)) = cacheSize w"
  unfolding downloadAsync_def by (rule invoke_cacheSize) (simp split: option.splits)

lemma Math_random_obs:
  "no_faults (snd (Math_random w)) = no_faults w" "dir (snd (Math_random w)) = dir w"
  "cacheSize (snd (Math_random w)) = cacheSize w"
  by (simp_all add: Math_random_def split: list.splits)

lemma statLoop_cacheSize: "cacheSize (snd (statLoop names acc w)) = cacheSize w"
proof (induction names arbitrary: acc w)
  case Nil
  show ?case by simp
next
  case (Cons n names)
  obtain r w1 where gi: "getInfoAsync (IMAGE_CACHE_DIR @ n) True w = (r, w1)"
    by (cases "getInfoAsync (IMAGE_CACHE_DIR @ n) True w")
  then have w1: "cacheSize w1 = cacheSize w"
    using getInfoAsync_cacheSize [of "IMAGE_CACHE_DIR @ n" True w] by simp
  obtain x w2 where mr: "Math_random w1 = (x, w2)"
    by (cases "Math_random w1")
  then have w2: "cacheSize w2 = cacheSize w1"
    using Math_random_obs(3) [of w1] by simp
  show ?case
    using gi w1 mr w2 by (cases r) (simp_all add: Cons.IH)
qed

lemma statLoop_rejected:
  "statLoop names acc w = (Inl (Rejected d), w') \<Longrightarrow>
   last (calls w') = d \<and> calls w' \<noteq> [] \<and> cacheSize w' = cacheSize w"
proof (induction names arbitrary: acc w)
  case Nil
  then show ?case by simp
next
  case (Cons n names)
  obtain r w1 where gi: "getInfoAsync (IMAGE_CACHE_DIR @ n) True w = (r, w1)"
    by (cases "getInfoAsync (IMAGE_CACHE_DIR @ n) True w")
  then have w1: "cacheSize w1 = cacheSize w"
    using getInfoAsync_cacheSize [of "IMAGE_CACHE_DIR @ n" True w] by simp
  obtain x w2 where mr: "Math_random w1 = (x, w2)"
    by (cases "Math_random w1")
  then have w2: "cacheSize w2 = cacheSize w1"
    using Math_random_obs(3) [of w1] by simp
  show ?case
  proof (cases r)
    case (Inl e)
    with Cons.prems gi have "getInfoAsync (IMAGE_CACHE_DIR @ n) True w = (Inl (Rejected d), w')"
      by simp
    then show ?thesis by (rule getInfoAsync_rejected)
  next
    case (Inr fileInfo)
    show ?thesis
    proof (cases "info_exists fileInfo")
      case True
      with Cons.prems gi Inr mr obtain acc' where
        "statLoop names acc' w2 = (Inl (Rejected d), w')"
        by simp
      from Cons.IH [OF this] w1 w2 show ?thesis by simp
    next
      case False
      with Cons.prems gi Inr have "statLoop names acc w1 = (Inl (Rejected d), w')"
        by simp
      from Cons.IH [OF this] w1 show ?thesis by simp
    qed
  qed
qed

lemma deleteLoop_cacheSize: "cacheSize (snd (deleteLoop M infos c w)) = cacheSize w"
proof (induction infos arbitrary: c w)
  case Nil
  show ?case by simp
next
  case (Cons f infos)
  obtain r w1 where del: "deleteAsync (uri f) False w = (r, w1)"
    by (cases "deleteAsync (uri f) False w")
  then have "cacheSize w1 = cacheSize w"
    using deleteAsync_cacheSize [of "uri f" False w] by simp
  with del show ?case
    by (cases r) (simp_all add: Cons.IH)
qed

lemma deleteLoop_rejected:
  "deleteLoop M infos c w = (Inl (Rejected d), w') \<Longrightarrow>
   last (calls w') = d \<and> calls w' \<noteq> [] \<and> cacheSize w' = cacheSize w"
proof (induction infos arbitrary: c w)
  case Nil
  then show ?case by simp
next
  case (Cons f infos)
  from Cons.prems have above: "\<not> of_int c \<le> targetSize M"
    by (auto split: if_splits)
  obtain r w1 where del: "deleteAsync (uri f) False w = (r, w1)"
    by (cases "deleteAsync (uri f) False w")
  then have w1: "cacheSize w1 = cacheSize w"
    using deleteAsync_cacheSize [of "uri f" False w] by simp
  show ?case
  proof (cases r)
    case (Inl e)
    with Cons.prems above del have "deleteAsync (uri f) False w = (Inl (Rejected d), w')"
      by simp
    then show ?thesis by (rule deleteAsync_rejected)
  next
    case (Inr u)
    with Cons.prems above del
    have "deleteLoop M infos (c - int (size' f)) w1 = (Inl (Rejected d), w')"
      by simp
    from Cons.IH [OF this] w1 show ?thesis by simp
  qed
qed

lemma trimBody_rejected:
  assumes "fst (trimBody M w) = Inl (Rejected d)"
  shows "last (calls (snd (trimBody M w))) = d \<and> calls (snd (trimBody M w)) \<noteq> [] \<and>
         cacheSize (snd (trimBody M w)) = cacheSize w"
proof -
  obtain r1 w1 where rd: "readDirectoryAsync IMAGE_CACHE_DIR w = (r1, w1)"
    by (cases "readDirectoryAsync IMAGE_CACHE_DIR w")
  then have w1: "cacheSize w1 = cacheSize w"
    using readDirectoryAsync_cacheSize [of IMAGE_CACHE_DIR w] by simp
  show ?thesis
  proof (cases r1)
    case (Inl e)
    with assms rd have "readDirectoryAsync IMAGE_CACHE_DIR w = (Inl (Rejected d), w1)"
      by (simp add: trimBody_def io_bind_def)
    from readDirectoryAsync_rejected [OF this] rd Inl show ?thesis
      by (simp add: trimBody_def io_bind_def)
  next
    case (Inr files)
    show ?thesis
    proof (cases "length files = 0")
      case True
      with assms rd Inr show ?thesis
        by (simp add: trimBody_def io_bind_def io_return_def)
    next
      case False
      obtain r2 w2 where st: "statLoop files [] w1 = (r2, w2)"
        by (cases "statLoop files [] w1")
      then have w2: "cacheSize w2 = cacheSize w1"
        using statLoop_cacheSize [of files "[]" w1] by simp
      show ?thesis
      proof (cases r2)
        case (Inl e)
        with assms rd Inr False st have "statLoop files [] w1 = (Inl (Rejected d), w2)"
          by (simp add: trimBody_def io_bind_def)
        from statLoop_rejected [OF this] rd Inr False st Inl w1 show ?thesis
          by (simp add: trimBody_def io_bind_def)
      next
        case infos: (Inr fileInfos)
        let ?sorted = "sort_key modificationTime fileInfos"
        obtain r3 w3 where dl: "deleteLoop M ?sorted (cacheSize w2) w2 = (r3, w3)"
          by (cases "deleteLoop M ?sorted (cacheSize w2) w2")
        show ?thesis
        proof (cases r3)
          case (Inl e)
          with assms rd Inr False st infos dl
          have "deleteLoop M ?sorted (cacheSize w2) w2 = (Inl (Rejected d), w3)"
            by (simp add: trimBody_def io_bind_def)
          from deleteLoop_rejected [OF this] rd Inr False st infos dl Inl w1 w2 show ?thesis
            by (simp add: trimBody_def io_bind_def)
        next
          case deleted: (Inr u)
          obtain n w4 where "calculateCacheSize w3 = (Inr n, w4)"
            using calculateCacheSize_total [of w3] by (cases "calculateCacheSize w3") auto
          with assms rd Inr False st infos dl deleted show ?thesis
            by (simp add: trimBody_def io_bind_def io_return_def)
        qed
      qed
    qed
  qed
qed

lemma fetchOrHit_rejected_iff:
  "(\<exists>e. fst (fetchOrHit M url w) = Inl e) = missStepRejected url w"
  by (auto simp: fetchOrHit_def missStepRejected_def io_bind_def io_return_def Let_def
      split: prod.splits sum.splits)

lemma fetchOrHit_rejected_cacheSize:
  assumes "fst (fetchOrHit M url w) = Inl e"
  shows "cacheSize (snd (fetchOrHit M url w)) = cacheSize w"
proof -
  let ?p = "IMAGE_CACHE_DIR @ getFilenameFromUrl url"
  obtain r1 w1 where s1: "getInfoAsync ?p False w = (r1, w1)"
    by (cases "getInfoAsync ?p False w")
  then have w1: "cacheSize w1 = cacheSize w"
    using getInfoAsync_cacheSize [of ?p False w] by simp
  obtain r2 w2 where s2: "downloadAsync url ?p w1 = (r2, w2)"
    by (cases "downloadAsync url ?p w1")
  then have w2: "cacheSize w2 = cacheSize w1"
    using downloadAsync_cacheSize [of url ?p w1] by simp
  obtain r3 w3 where s3: "getInfoAsync ?p True w2 = (r3, w3)"
    by (cases "getInfoAsync ?p True w2")
  then have w3: "cacheSize w3 = cacheSize w2"
    using getInfoAsync_cacheSize [of ?p True w2] by simp
  show ?thesis
    using assms s1 s2 s3 w1 w2 w3
    by (auto simp: fetchOrHit_def io_bind_def io_return_def Let_def
        split: prod.splits sum.splits if_splits)
qed

text \<open>A normal return of the \<^verbatim>\<open>try\<close> block carries the path of the cached file.\<close>

lemma info_uri_stat [simp]: "info_uri (stat path w) = path"
  by (simp add: stat_def absent_def split: option.splits)

lemma getInfoAsync_uri:
  "getInfoAsync path b w = (Inr fileInfo, w') \<Longrightarrow> info_uri fileInfo = path"
  by (auto simp: getInfoAsync_def invoke_def split: if_splits)

lemma downloadAsync_uri:
  "downloadAsync url path w = (Inr downloadResult, w') \<Longrightarrow> downloadResult = path"
  by (auto simp: downloadAsync_def invoke_def split: if_splits option.splits)

lemma fetchOrHit_result:
  assumes "fst (fetchOrHit M url w) = Inr p"
  shows "p = IMAGE_CACHE_DIR @ getFilenameFromUrl url"
proof -
  let ?p = "IMAGE_CACHE_DIR @ getFilenameFromUrl url"
  obtain r1 w1 where s1: "getInfoAsync ?p False w = (r1, w1)"
    by (cases "getInfoAsync ?p False w")
  obtain r2 w2 where s2: "downloadAsync url ?p w1 = (r2, w2)"
    by (cases "downloadAsync url ?p w1")
  obtain r3 w3 where s3: "getInfoAsync ?p True w2 = (r3, w3)"
    by (cases "getInfoAsync ?p True w2")
  show ?thesis
    using assms s1 s2 s3 getInfoAsync_uri [of ?p False w] downloadAsync_uri [of url ?p w1]
    by (auto simp: fetchOrHit_def io_bind_def io_return_def Let_def
        split: prod.splits sum.splits if_splits)
qed

subsection \<open>Runs without rejected calls\<close>

lemma clearCache_no_faults:
  assumes "no_faults w"
  shows "clearCache w =
    (Inr (), case dir w of
       None \<Rightarrow> (called (GetInfo IMAGE_CACHE_DIR False) w)\<lparr>cacheSize := 0\<rparr>
     | Some fs \<Rightarrow>
         (called (MakeDirectory IMAGE_CACHE_DIR) (called (Delete IMAGE_CACHE_DIR True)
            (called (GetInfo IMAGE_CACHE_DIR False) w)))\<lparr>dir := Some [], cacheSize := 0\<rparr>)"
  using assms
  by (cases "dir w")
     (simp_all add: clearCache_def try_catch_def io_bind_def io_return_def getInfoAsync_def
        deleteAsync_def makeDirectoryAsync_def invoke_no_faults stat_def absent_def Let_def)

lemma clearCache_no_faults_obs:
  assumes "no_faults w"
  shows "no_faults (snd (clearCache w))" "cacheSize (snd (clearCache w)) = 0"
    "dir (snd (clearCache w)) = (if dir w = None then None else Some [])"
    "isEnabled (snd (clearCache w)) = isEnabled w" "storage (snd (clearCache w)) = storage w"
  using assms by (cases "dir w"; simp add: clearCache_no_faults)+

lemma setItem_no_faults:
  "no_faults w \<Longrightarrow>
   setItem k v w = (Inr (), (called (SetItem k v) w)\<lparr>storage := (storage w)(k \<mapsto> v)\<rparr>)"
  by (simp add: setItem_def invoke_no_faults)

lemma setEnabled_no_faults:
  assumes "no_faults w"
  shows "setEnabled enabled w =
     (let w1 = (called (SetItem IMAGE_CACHE_ENABLED_KEY (toString enabled)) w)
                 \<lparr>isEnabled := enabled,
                  storage := (storage w)(IMAGE_CACHE_ENABLED_KEY \<mapsto> toString enabled)\<rparr>
      in if enabled then (Inr (), w1) else clearCache w1)"
  using assms by (simp add: setEnabled_def io_bind_def setItem_no_faults io_return_def Let_def)

lemma setEnabled_no_faults_obs:
  assumes "no_faults w"
  shows "fst (setEnabled enabled w) = Inr ()"
    "no_faults (snd (setEnabled enabled w))"
    "isEnabled (snd (setEnabled enabled w)) = enabled"
    "storage (snd (setEnabled enabled w)) =
       (storage w)(IMAGE_CACHE_ENABLED_KEY \<mapsto> toString enabled)"
    "cacheSize (snd (setEnabled enabled w)) = (if enabled then cacheSize w else 0)"
    "dir (snd (setEnabled enabled w)) = (if enabled \<or> dir w = None then dir w else Some [])"
  using assms
  by (simp_all add: setEnabled_no_faults Let_def clearCache_no_faults_obs clearCache_total)

lemma getInfoAsync_no_faults:
  "no_faults w \<Longrightarrow> getInfoAsync path b w = (Inr (stat path (called (GetInfo path b) w)), called (GetInfo path b) w)"
  by (simp add: getInfoAsync_def invoke_no_faults)

lemma readDirectoryAsync_no_faults:
  "no_faults w \<Longrightarrow> dir w = Some fs \<Longrightarrow>
   readDirectoryAsync IMAGE_CACHE_DIR w =
     (Inr (map fst fs), called (ReadDirectory IMAGE_CACHE_DIR) w)"
  by (simp add: readDirectoryAsync_def invoke_no_faults)

lemma calculateCacheSize_no_faults:
  "no_faults w \<Longrightarrow> dir w = Some fs \<Longrightarrow>
   calculateCacheSize w =
     (Inr (int (sum_list (map snd fs))),
      (called (GetInfo IMAGE_CACHE_DIR True) w)\<lparr>cacheSize := int (sum_list (map snd fs))\<rparr>)"
  by (simp add: calculateCacheSize_def try_catch_def io_bind_def getInfoAsync_no_faults
      stat_dir Let_def)

lemma map_of_writeBlob [simp]: "map_of (writeBlob name n fs) name = Some n"
proof -
  have "map_of (filter (\<lambda>p. fst p \<noteq> name) fs) name = None"
    by (simp add: map_of_eq_None_iff image_iff)
  then show ?thesis
    by (simp add: writeBlob_def map_add_def)
qed

lemma downloadAsync_no_faults:
  "no_faults w \<Longrightarrow> remote w url = Some n \<Longrightarrow> dir w = Some fs \<Longrightarrow> name \<noteq> [] \<Longrightarrow>
   downloadAsync url (IMAGE_CACHE_DIR @ name) w =
     (Inr (IMAGE_CACHE_DIR @ name),
      (called (Download url (IMAGE_CACHE_DIR @ name)) w)\<lparr>dir := Some (writeBlob name n fs)\<rparr>)"
  by (simp add: downloadAsync_def invoke_no_faults)

lemma updateCacheSize_below:
  "cacheSize w + n \<le> M \<Longrightarrow> updateCacheSize M n w = (Inr (), w\<lparr>cacheSize := cacheSize w + n\<rparr>)"
  by (simp add: updateCacheSize_def try_catch_def Let_def)

lemma getCachedImageUri_hit:
  assumes "isEnabled w" "url \<noteq> []" "getFilenameFromUrl url \<noteq> []" "no_faults w"
    and "dir w = Some fs" "map_of fs (getFilenameFromUrl url) = Some s"
  shows "getCachedImageUri M url w =
     (Inr (IMAGE_CACHE_DIR @ getFilenameFromUrl url),
      called (GetInfo (IMAGE_CACHE_DIR @ getFilenameFromUrl url) False) w)"
  using assms
  by (simp add: getCachedImageUri_def fetchOrHit_def try_catch_def io_bind_def io_return_def
      getInfoAsync_no_faults stat_blob Let_def)

lemma getCachedImageUri_miss:
  assumes "isEnabled w" "url \<noteq> []" "getFilenameFromUrl url \<noteq> []" "no_faults w"
    and "dir w = Some fs" "map_of fs (getFilenameFromUrl url) = None"
    and "remote w url = Some n" "n = 0 \<or> cacheSize w + int n \<le> M"
  shows "getCachedImageUri M url w =
     (Inr (IMAGE_CACHE_DIR @ getFilenameFromUrl url),
      (called (GetInfo (IMAGE_CACHE_DIR @ getFilenameFromUrl url) True)
        (called (Download url (IMAGE_CACHE_DIR @ getFilenameFromUrl url))
          (called (GetInfo (IMAGE_CACHE_DIR @ getFilenameFromUrl url) False) w)))
       \<lparr>dir := Some (writeBlob (getFilenameFromUrl url) n fs),
         cacheSize := cacheSize w + int n\<rparr>)"
proof (cases "n = 0")
  case True
  let ?W = "called (GetInfo (IMAGE_CACHE_DIR @ getFilenameFromUrl url) True)
        (called (Download url (IMAGE_CACHE_DIR @ getFilenameFromUrl url))
          (called (GetInfo (IMAGE_CACHE_DIR @ getFilenameFromUrl url) False) w))"
  have "?W\<lparr>dir := d, cacheSize := cacheSize w\<rparr> = ?W\<lparr>dir := d\<rparr>" for d
    by (cases w) (simp add: called_def)
  with True assms show ?thesis
    by (simp add: getCachedImageUri_def fetchOrHit_def try_catch_def io_bind_def io_return_def
      getInfoAsync_no_faults stat_blob Let_def downloadAsync_no_faults absent_def)
next
  case False
  with assms show ?thesis
    by (simp add: getCachedImageUri_def fetchOrHit_def try_catch_def io_bind_def io_return_def
      getInfoAsync_no_faults stat_blob Let_def downloadAsync_no_faults absent_def
      updateCacheSize_below)
qed

subsection \<open>The trim on a consistent store\<close>

text \<open>Deleting a blob by name removes exactly that entry when names are distinct.\<close>

lemma filter_name_mset:
  "distinct (map fst gs) \<Longrightarrow> (n, s) \<in> set gs \<Longrightarrow>
   mset (filter (\<lambda>p. fst p \<noteq> n) gs) = mset gs - {#(n, s)#}"
proof (induction gs)
  case Nil
  then show ?case by simp
next
  case (Cons p gs)
  show ?case
  proof (cases "fst p = n")
    case True
    with Cons.prems have "p = (n, s)"
      by (cases p) (auto simp: image_iff)
    moreover from True Cons.prems have "filter (\<lambda>q. fst q \<noteq> n) gs = gs"
      by (auto simp: filter_id_conv image_iff)
    ultimately show ?thesis using True by simp
  next
    case False
    with Cons show ?thesis by auto
  qed
qed

lemma filter_name_sum:
  "distinct (map fst gs) \<Longrightarrow> (n, s) \<in> set gs \<Longrightarrow>
   sum_list (map snd gs) = (s::nat) + sum_list (map snd (filter (\<lambda>p. fst p \<noteq> n) gs))"
proof (induction gs)
  case Nil
  then show ?case by simp
next
  case (Cons p gs)
  show ?case
  proof (cases "fst p = n")
    case True
    with Cons.prems have "p = (n, s)"
      by (cases p) (auto simp: image_iff)
    moreover from True Cons.prems have "filter (\<lambda>q. fst q \<noteq> n) gs = gs"
      by (auto simp: filter_id_conv image_iff)
    ultimately show ?thesis using True by simp
  next
    case False
    with Cons show ?thesis by auto
  qed
qed

lemma statLoop_no_faults:
  assumes "no_faults w" "dir w = Some fs" "[] \<notin> set names" "set names \<subseteq> fst ` set fs"
  shows "\<exists>infos w'. statLoop names acc w = (Inr (acc @ infos), w') \<and> no_faults w' \<and>
           dir w' = Some fs \<and> cacheSize w' = cacheSize w \<and>
           map uri infos = map ((@) IMAGE_CACHE_DIR) names \<and>
           map size' infos = map (\<lambda>n. the (map_of fs n)) names"
  using assms
proof (induction names arbitrary: acc w)
  case Nil
  then show ?case by simp
next
  case (Cons n names)
  let ?w1 = "called (GetInfo (IMAGE_CACHE_DIR @ n) True) w"
  from Cons.prems obtain s where s: "map_of fs n = Some s"
    by (cases "map_of fs n") (auto simp: map_of_eq_None_iff)
  from Cons.prems have n: "n \<noteq> []" by auto
  obtain r w2 where r: "Math_random ?w1 = (r, w2)"
    by (cases "Math_random ?w1")
  with Cons.prems Math_random_obs [of ?w1]
  have w2: "no_faults w2" "dir w2 = Some fs" "cacheSize w2 = cacheSize w"
    by simp_all
  let ?i = "\<lparr>uri = IMAGE_CACHE_DIR @ n, size' = s,
             modificationTime = of_int (Date_now ?w1) - r * 86400000\<rparr>"
  from Cons.IH [OF w2(1,2), of "acc @ [?i]"] Cons.prems
  obtain infos w' where IH: "statLoop names (acc @ [?i]) w2 = (Inr ((acc @ [?i]) @ infos), w')"
    "no_faults w'" "dir w' = Some fs" "cacheSize w' = cacheSize w2"
    "map uri infos = map ((@) IMAGE_CACHE_DIR) names"
    "map size' infos = map (\<lambda>n. the (map_of fs n)) names"
    by auto
  have "statLoop (n # names) acc w = (Inr (acc @ ?i # infos), w')"
    using Cons.prems(1,2) n s r IH(1)
    by (simp add: getInfoAsync_no_faults stat_blob)
  with IH w2 s show ?case
    by (intro exI [of _ "?i # infos"] exI [of _ w']) simp
qed

lemma targetSize_MAX_CACHE_SIZE: "targetSize MAX_CACHE_SIZE = 73400320"
  by (simp add: targetSize_def MAX_CACHE_SIZE_def)

lemma targetSize_le: "(of_int c \<le> targetSize M) = (10 * c \<le> 7 * M)"
proof -
  have "(of_int c \<le> targetSize M) = ((of_int (10 * c) :: rat) \<le> of_int (7 * M))"
    by (simp add: targetSize_def field_simps)
  then show ?thesis
    by (simp only: of_int_le_iff)
qed

lemma deleteAsync_blob_no_faults:
  assumes "no_faults w" "dir w = Some gs" "n \<noteq> []" "n \<in> fst ` set gs"
  shows "deleteAsync (IMAGE_CACHE_DIR @ n) False w =
     (Inr (), (called (Delete (IMAGE_CACHE_DIR @ n) False) w)
                \<lparr>dir := Some (filter (\<lambda>p. fst p \<noteq> n) gs)\<rparr>)"
  using assms by (simp add: deleteAsync_def invoke_no_faults Let_def)

text \<open>
  With a running total that starts at or above the sum of the blob sizes, the second loop
  leaves blobs of at most the target in total.
\<close>

lemma deleteLoop_no_faults:
  assumes "no_faults w" "dir w = Some gs" "distinct (map fst gs)" "[] \<notin> fst ` set gs"
    and "\<forall>f \<in> set infos. inStore f" "mset (map entry infos) = mset gs"
    and "int (sum_list (map snd gs)) \<le> c" "0 \<le> M"
  shows "\<exists>w' gs'. deleteLoop M infos c w = (Inr (), w') \<and> no_faults w' \<and>
           dir w' = Some gs' \<and> 10 * int (sum_list (map snd gs')) \<le> 7 * M \<and>
           cacheSize w' = cacheSize w"
  using assms
proof (induction infos arbitrary: gs c w)
  case Nil
  then show ?case by simp
next
  case (Cons f infos)
  show ?case
  proof (cases "10 * c \<le> 7 * M")
    case True
    then have "deleteLoop M (f # infos) c w = (Inr (), w)"
      by (simp add: targetSize_le)
    with True Cons.prems(1,2,7) show ?thesis
      by auto
  next
    case False
    obtain n s where ns: "entry f = (n, s)"
      by (cases "entry f")
    with Cons.prems(6) have mem: "(n, s) \<in> set gs"
      by (metis list.set_intros(1) list.simps(9) mset_eq_setD)
    with Cons.prems(4) have n: "n \<noteq> []" "n \<in> fst ` set gs"
      by force+
    from Cons.prems(5) ns have uri: "uri f = IMAGE_CACHE_DIR @ n"
      by (simp add: inStore_def)
    from ns have sz: "size' f = s"
      by (simp add: entry_def)
    let ?gs = "filter (\<lambda>p. fst p \<noteq> n) gs"
    let ?w1 = "(called (Delete (IMAGE_CACHE_DIR @ n) False) w)\<lparr>dir := Some ?gs\<rparr>"
    have del: "deleteAsync (uri f) False w = (Inr (), ?w1)"
      using Cons.prems(1,2) n uri by (simp add: deleteAsync_blob_no_faults)
    have gs1: "distinct (map fst ?gs)" "[] \<notin> fst ` set ?gs"
      using Cons.prems(3,4) by (auto simp: distinct_map_filter)
    from Cons.prems(6) ns have "add_mset (n, s) (mset (map entry infos)) = mset gs"
      by simp
    then have "mset (map entry infos) = mset gs - {#(n, s)#}"
      by (metis add_mset_remove_trivial)
    then have gs2: "mset (map entry infos) = mset ?gs"
      using filter_name_mset [OF Cons.prems(3) mem] by simp
    have gs3: "int (sum_list (map snd ?gs)) \<le> c - int s"
      using Cons.prems(7) filter_name_sum [OF Cons.prems(3) mem] by simp
    from Cons.IH [of ?w1 ?gs "c - int s"] Cons.prems(1,5,8) gs1 gs2 gs3
    obtain w' gs' where "deleteLoop M infos (c - int s) ?w1 = (Inr (), w')" "no_faults w'"
      "dir w' = Some gs'" "10 * int (sum_list (map snd gs')) \<le> 7 * M"
      "cacheSize w' = cacheSize ?w1"
      by auto
    moreover have "deleteLoop M (f # infos) c w = deleteLoop M infos (c - int s) ?w1"
      using False del sz by (simp add: targetSize_le)
    ultimately show ?thesis
      by auto
  qed
qed

lemma map_of_own_names:
  "distinct (map fst fs) \<Longrightarrow> map (\<lambda>n. the (map_of fs n)) (map fst fs) = map snd fs"
  by (induction fs) (auto simp: image_iff)

lemma entries_of_infos:
  assumes "map uri infos = map ((@) IMAGE_CACHE_DIR) (map fst fs)"
    and "map size' infos = map snd fs"
  shows "map entry infos = fs" "\<forall>f \<in> set infos. inStore f"
proof -
  have "map (\<lambda>f. drop (length IMAGE_CACHE_DIR) (uri f)) infos =
        map (drop (length IMAGE_CACHE_DIR)) (map uri infos)"
    by simp
  also have "\<dots> = map fst fs"
    unfolding assms(1) by simp
  finally have names: "map (\<lambda>f. drop (length IMAGE_CACHE_DIR) (uri f)) infos = map fst fs" .
  have "map entry infos =
        zip (map (\<lambda>f. drop (length IMAGE_CACHE_DIR) (uri f)) infos) (map size' infos)"
    by (induction infos) (simp_all add: entry_def)
  with names assms(2) show "map entry infos = fs"
    by (simp add: zip_map_fst_snd)
  show "\<forall>f \<in> set infos. inStore f"
  proof
    fix f assume "f \<in> set infos"
    then have "uri f \<in> set (map uri infos)" by simp
    then obtain n where "uri f = IMAGE_CACHE_DIR @ n"
      unfolding assms(1) by auto
    then show "inStore f" by (simp add: inStore_def entry_def)
  qed
qed

lemma trimBody_no_faults:
  assumes "no_faults w" "dir w = Some fs" "distinct (map fst fs)" "[] \<notin> fst ` set fs"
    and "fs \<noteq> []" "int (sum_list (map snd fs)) \<le> cacheSize w" "0 \<le> M"
  shows "fst (trimBody M w) = Inr () \<and> 10 * cacheSize (snd (trimBody M w)) \<le> 7 * M"
proof -
  let ?w1 = "called (ReadDirectory IMAGE_CACHE_DIR) w"
  have w1: "no_faults ?w1" "dir ?w1 = Some fs"
    using assms by simp_all
  have names: "[] \<notin> set (map fst fs)" "set (map fst fs) \<subseteq> fst ` set fs"
    using assms(4) by auto
  from statLoop_no_faults [OF w1 names, of "[]"]
  obtain infos w2 where st: "statLoop (map fst fs) [] ?w1 = (Inr infos, w2)" "no_faults w2"
    "dir w2 = Some fs" "cacheSize w2 = cacheSize ?w1"
    "map uri infos = map ((@) IMAGE_CACHE_DIR) (map fst fs)"
    "map size' infos = map (\<lambda>n. the (map_of fs n)) (map fst fs)"
    by auto
  from st(6) have "map size' infos = map snd fs"
    unfolding map_of_own_names [OF assms(3)] .
  note ent = entries_of_infos [OF st(5) this]
  let ?sorted = "sort_key modificationTime infos"
  have s1: "\<forall>f \<in> set ?sorted. inStore f"
    using ent(2) by simp
  have "mset (map entry ?sorted) = image_mset entry (mset ?sorted)"
    by simp
  also have "\<dots> = mset (map entry infos)"
    by simp
  finally have s2: "mset (map entry ?sorted) = mset fs"
    using ent(1) by simp
  have c: "int (sum_list (map snd fs)) \<le> cacheSize w2"
    using st(4) assms(6) by simp
  from deleteLoop_no_faults [OF st(2,3) assms(3,4) s1 s2 c assms(7)]
  obtain w3 gs where del: "deleteLoop M ?sorted (cacheSize w2) w2 = (Inr (), w3)"
    "no_faults w3" "dir w3 = Some gs" "10 * int (sum_list (map snd gs)) \<le> 7 * M"
    by auto
  have "trimBody M w =
     (Inr (), (called (GetInfo IMAGE_CACHE_DIR True) w3)\<lparr>cacheSize := int (sum_list (map snd gs))\<rparr>)"
    using assms(1,2,5) st(1) del(1,2,3)
    by (simp add: trimBody_def io_bind_def io_return_def readDirectoryAsync_no_faults
        calculateCacheSize_no_faults)
  with del(4) show ?thesis
    by simp
qed

text \<open>\<^verbatim>\<open>trimCache\<close> returns normally in the world its \<^verbatim>\<open>try\<close> block ends in.\<close>

lemma trimCache_run: "trimCache M w = (Inr (), snd (trimBody M w))"
  by (cases "trimBody M w" rule: prod.exhaust; cases "fst (trimBody M w)")
     (auto simp: trimCache_def try_catch_def io_return_def)

text \<open>Above the ceiling, \<^verbatim>\<open>updateCacheSize\<close> is the addition followed by the trim.\<close>

lemma updateCacheSize_trims:
  "M < cacheSize w + n \<Longrightarrow>
   updateCacheSize M n w = (Inr (), snd (trimBody M (w\<lparr>cacheSize := cacheSize w + n\<rparr>)))"
  using trimCache_run [of M "w\<lparr>cacheSize := cacheSize w + n\<rparr>"]
  by (simp add: updateCacheSize_def try_catch_def io_return_def Let_def)

lemma updateCacheSize_reaches_target:
  assumes "no_faults w" "distinct (map fst (blobs w))" "[] \<notin> fst ` set (blobs w)"
    and "blobs w \<noteq> []" "int (sum_list (map snd (blobs w))) \<le> cacheSize w + n"
    and "0 \<le> M" "M < cacheSize w + n"
  shows "of_int (cacheSize (snd (updateCacheSize M n w))) \<le> targetSize M"
proof -
  let ?w' = "w\<lparr>cacheSize := cacheSize w + n\<rparr>"
  from assms(4) obtain fs where fs: "dir w = Some fs" "blobs w = fs"
    by (cases "dir w") (simp_all add: blobs_def)
  have "fst (trimBody M ?w') = Inr () \<and> 10 * cacheSize (snd (trimBody M ?w')) \<le> 7 * M"
    using assms fs by (intro trimBody_no_faults [where fs = fs]) simp_all
  then show ?thesis
    by (simp add: updateCacheSize_trims [OF assms(7)] targetSize_le)
qed

subsection \<open>The deletion pass\<close>

lemma runningTotal_simps [simp]:
  "runningTotal c infos 0 = c"
  "runningTotal c (f # infos) (Suc j) = runningTotal (c - int (size' f)) infos j"
  by (simp_all add: runningTotal_def)

lemma deleteLoop_stops:
  "\<exists>k\<le>length infos.
     calls (snd (deleteLoop M infos c w)) =
       calls w @ map (\<lambda>f. Delete (uri f) False) (take k infos) \<and>
     (\<forall>j<k. targetSize M < of_int (runningTotal c infos j)) \<and>
     (fst (deleteLoop M infos c w) = Inr () \<longrightarrow>
        k = length infos \<or> of_int (runningTotal c infos k) \<le> targetSize M)"
proof (induction infos arbitrary: c w)
  case Nil
  show ?case by simp
next
  case (Cons f infos)
  show ?case
  proof (cases "of_int c \<le> targetSize M")
    case True
    then show ?thesis
      by (intro exI [of _ 0]) simp
  next
    case above: False
    obtain r w1 where del: "deleteAsync (uri f) False w = (r, w1)"
      by (cases "deleteAsync (uri f) False w")
    then have w1: "calls w1 = calls w @ [Delete (uri f) False]"
      using calls_deleteAsync [of "uri f" False w] by simp
    show ?thesis
    proof (cases r)
      case (Inl e)
      with above del w1 show ?thesis
        by (intro exI [of _ 1]) simp
    next
      case (Inr u)
      from Cons.IH [of "c - int (size' f)" w1]
      obtain k where k: "k \<le> length infos"
        "calls (snd (deleteLoop M infos (c - int (size' f)) w1)) =
           calls w1 @ map (\<lambda>f. Delete (uri f) False) (take k infos)"
        "\<forall>j<k. targetSize M < of_int (runningTotal (c - int (size' f)) infos j)"
        "fst (deleteLoop M infos (c - int (size' f)) w1) = Inr () \<longrightarrow>
           k = length infos \<or> of_int (runningTotal (c - int (size' f)) infos k) \<le> targetSize M"
        by blast
      have step: "deleteLoop M (f # infos) c w = deleteLoop M infos (c - int (size' f)) w1"
        using above del Inr by simp
      have "\<forall>j<Suc k. targetSize M < of_int (runningTotal c (f # infos) j)"
      proof (intro allI impI)
        fix j assume "j < Suc k"
        then show "targetSize M < of_int (runningTotal c (f # infos) j)"
          using above k(3) by (cases j) auto
      qed
      with k w1 step show ?thesis
        by (intro exI [of _ "Suc k"]) simp
    qed
  qed
qed

subsection \<open>Fault schedules and the order of the trim\<close>

lemma okFor_0 [simp]: "okFor 0 w"
  by (simp add: okFor_def)

lemma okFor_Suc: "okFor (Suc m) w = (\<not> nextFault w \<and> okFor m (called c w))"
  by (cases "faults w") (auto simp: okFor_def nextFault_def called_def)

lemma no_faults_okFor: "no_faults w \<Longrightarrow> okFor m w"
  by (auto simp: no_faults_def okFor_def dest: in_set_takeD)

lemma okFor_upd [simp]:
  "okFor m (w\<lparr>cacheSize := n\<rparr>) = okFor m w"
  "okFor m (w\<lparr>dir := d\<rparr>) = okFor m w"
  "okFor m (w\<lparr>randoms := rs\<rparr>) = okFor m w"
  by (simp_all add: okFor_def)

lemma okFor_mono: "okFor m w \<Longrightarrow> k \<le> m \<Longrightarrow> okFor k w"
  by (auto simp: okFor_def dest: set_take_subset_set_take [THEN subsetD])

lemma okFor_drop:
  assumes "okFor (k + m) w" "faults v = drop k (faults w)"
  shows "okFor m v"
proof -
  have "set (take m (drop k (faults w))) \<subseteq> set (take (k + m) (faults w))"
    by (simp add: take_drop set_drop_subset add.commute)
  with assms show ?thesis
    by (auto simp: okFor_def)
qed

lemma faults_called [simp]: "faults (called c w) = tl (faults w)"
  by (simp add: called_def)

lemma evictions_le: "evictions M c infos \<le> length infos"
  by (induction infos arbitrary: c) auto

lemma evictions_above:
  "j < evictions M c infos \<Longrightarrow> targetSize M < of_int (runningTotal c infos j)"
proof (induction infos arbitrary: c j)
  case Nil
  then show ?case by simp
next
  case (Cons f infos)
  then show ?case
    by (cases j) (auto split: if_splits)
qed

lemma evictions_done:
  "evictions M c infos = length infos \<or>
   of_int (runningTotal c infos (evictions M c infos)) \<le> targetSize M"
  by (induction infos arbitrary: c) auto

lemma entry_simulated [simp]: "map entry (simulated t rs fs) = fs"
  by (induction t rs fs rule: simulated.induct) (simp_all add: entry_def)

lemma inStore_simulated: "f \<in> set (simulated t rs fs) \<Longrightarrow> inStore f"
  by (induction t rs fs rule: simulated.induct) (auto simp: inStore_def entry_def)

lemma length_simulated [simp]: "length (simulated t rs fs) = length fs"
  by (induction t rs fs rule: simulated.induct) simp_all

lemma trimOrder_facts:
  "length (trimOrder w) = length (blobs w)"
  "mset (map entry (trimOrder w)) = mset (blobs w)"
  "\<forall>f \<in> set (trimOrder w). inStore f"
proof -
  show "length (trimOrder w) = length (blobs w)"
    by (simp add: trimOrder_def)
  have "mset (map entry (trimOrder w)) = image_mset entry (mset (trimOrder w))"
    by simp
  also have "\<dots> = image_mset entry (mset (simulated (now w) (randoms w) (blobs w)))"
    by (simp add: trimOrder_def)
  also have "\<dots> = mset (blobs w)"
    by (simp only: mset_map [symmetric] entry_simulated)
  finally show "mset (map entry (trimOrder w)) = mset (blobs w)" .
  show "\<forall>f \<in> set (trimOrder w). inStore f"
    by (simp add: trimOrder_def inStore_simulated)
qed

lemma trimOrder_upd [simp]:
  "trimOrder (w\<lparr>cacheSize := n\<rparr>) = trimOrder w"
  "blobs (w\<lparr>cacheSize := n\<rparr>) = blobs w"
  by (simp_all add: trimOrder_def blobs_def)

lemma okFor_replicate: "faults w = replicate m False @ bs \<Longrightarrow> okFor m w"
  by (simp add: okFor_def)

lemma deleteLoop_rejected_head:
  assumes "nextFault w" "\<not> of_int c \<le> targetSize M"
  shows "deleteLoop M (f # infos) c w =
           (Inl (Rejected (Delete (uri f) False)), called (Delete (uri f) False) w)"
  using assms by (simp add: deleteAsync_def invoke_def)

subsection \<open>Runs up to a rejected call\<close>

lemma invoke_ok: "\<not> nextFault w \<Longrightarrow> invoke c body w = body (called c w)"
  by (simp add: invoke_def)

lemma getInfoAsync_ok:
  "\<not> nextFault w \<Longrightarrow>
   getInfoAsync path b w = (Inr (stat path w), called (GetInfo path b) w)"
  by (simp add: getInfoAsync_def invoke_ok)

lemma readDirectoryAsync_ok:
  "\<not> nextFault w \<Longrightarrow> dir w = Some fs \<Longrightarrow>
   readDirectoryAsync IMAGE_CACHE_DIR w =
     (Inr (map fst fs), called (ReadDirectory IMAGE_CACHE_DIR) w)"
  by (simp add: readDirectoryAsync_def invoke_ok)

lemma deleteAsync_blob_ok:
  assumes "\<not> nextFault w" "dir w = Some gs" "n \<noteq> []" "n \<in> fst ` set gs"
  shows "deleteAsync (IMAGE_CACHE_DIR @ n) False w =
     (Inr (), (called (Delete (IMAGE_CACHE_DIR @ n) False) w)
                \<lparr>dir := Some (filter (\<lambda>p. fst p \<noteq> n) gs)\<rparr>)"
  using assms by (simp add: deleteAsync_def invoke_ok Let_def)

lemma calls_getInfoAsync: "calls (snd (getInfoAsync p b w)) = calls w @ [GetInfo p b]"
  by (simp add: getInfoAsync_def invoke_def)

lemma calls_readDirectoryAsync:
  "calls (snd (readDirectoryAsync p w)) = calls w @ [ReadDirectory p]"
  by (simp add: readDirectoryAsync_def invoke_def split: option.splits)

lemma calls_calculateCacheSize:
  "calls (snd (calculateCacheSize w)) = calls w @ [GetInfo IMAGE_CACHE_DIR True]"
  by (simp add: calculateCacheSize_def try_catch_def io_bind_def io_return_def
      getInfoAsync_def invoke_def Let_def)

lemma calls_Math_random [simp]: "calls (snd (Math_random w)) = calls w"
  by (simp add: Math_random_def split: list.splits)

lemma Math_random_run:
  "Math_random w = ((case randoms w of [] \<Rightarrow> 0 | r # _ \<Rightarrow> r), w\<lparr>randoms := tl (randoms w)\<rparr>)"
proof (cases "randoms w")
  case Nil
  then have "w\<lparr>randoms := []\<rparr> = w"
    by (cases w) simp
  with Nil show ?thesis by (simp add: Math_random_def)
next
  case (Cons r rs)
  then show ?thesis by (simp add: Math_random_def)
qed

text \<open>The first loop deletes nothing.\<close>

lemma statLoop_deletes:
  "filter isDelete (calls (snd (statLoop names acc w))) = filter isDelete (calls w)"
proof (induction names arbitrary: acc w)
  case Nil
  show ?case by simp
next
  case (Cons n names)
  obtain r w1 where gi: "getInfoAsync (IMAGE_CACHE_DIR @ n) True w = (r, w1)"
    by (cases "getInfoAsync (IMAGE_CACHE_DIR @ n) True w")
  then have w1: "filter isDelete (calls w1) = filter isDelete (calls w)"
    using calls_getInfoAsync [of "IMAGE_CACHE_DIR @ n" True w] by simp
  show ?case
    using gi w1 by (cases r) (simp_all add: Cons.IH Math_random_run)
qed

text \<open>A first loop that returns a list had none of its stats rejected.\<close>

lemma statLoop_Inr_okFor:
  "statLoop names acc w = (Inr infos, w') \<Longrightarrow> okFor (length names) w"
proof (induction names arbitrary: acc w)
  case Nil
  show ?case by simp
next
  case (Cons n names)
  from Cons.prems have ok: "\<not> nextFault w"
    by (auto simp: getInfoAsync_def invoke_def split: if_splits)
  let ?w1 = "called (GetInfo (IMAGE_CACHE_DIR @ n) True) w"
  let ?fi = "stat (IMAGE_CACHE_DIR @ n) w"
  have "okFor (length names) ?w1"
  proof (cases "info_exists ?fi")
    case True
    with Cons.prems ok obtain acc' where
      "statLoop names acc' (?w1\<lparr>randoms := tl (randoms ?w1)\<rparr>) = (Inr infos, w')"
      by (simp add: getInfoAsync_ok Math_random_run)
    from Cons.IH [OF this] show ?thesis by simp
  next
    case False
    with Cons.prems ok have "statLoop names acc ?w1 = (Inr infos, w')"
      by (simp add: getInfoAsync_ok)
    from Cons.IH [OF this] show ?thesis .
  qed
  with ok show ?case
    by (simp add: okFor_Suc [of _ _ "GetInfo (IMAGE_CACHE_DIR @ n) True"])
qed

text \<open>
  With none of its stats rejected, the first loop returns the blobs of the store in the
  order listed, each with the simulated time the clock and the next random number give.
\<close>

lemma statLoop_ok:
  assumes "okFor (length es) w" "dir w = Some fs" "distinct (map fst fs)"
    and "[] \<notin> fst ` set fs" "set es \<subseteq> set fs"
  shows "\<exists>w'. statLoop (map fst es) acc w =
             (Inr (acc @ simulated (now w) (randoms w) es), w') \<and>
           faults w' = drop (length es) (faults w) \<and>
           calls w' = calls w @ map (\<lambda>p. GetInfo (IMAGE_CACHE_DIR @ fst p) True) es \<and>
           dir w' = dir w \<and> cacheSize w' = cacheSize w"
  using assms(1,2,5)
proof (induction es arbitrary: acc w)
  case Nil
  then show ?case by simp
next
  case (Cons e es)
  obtain n s where e: "e = (n, s)"
    by (cases e)
  let ?w1 = "called (GetInfo (IMAGE_CACHE_DIR @ n) True) w"
  let ?w2 = "?w1\<lparr>randoms := tl (randoms w)\<rparr>"
  let ?i = "\<lparr>uri = IMAGE_CACHE_DIR @ n, size' = s,
             modificationTime =
               of_int (now w) - (case randoms w of [] \<Rightarrow> 0 | r # _ \<Rightarrow> r) * 86400000\<rparr>"
  from Cons.prems e have mem: "(n, s) \<in> set fs" by simp
  with assms(3) have s: "map_of fs n = Some s" by simp
  from mem assms(4) have n: "n \<noteq> []" by force
  from Cons.prems(1) have ok: "\<not> nextFault w" "okFor (length es) ?w2"
    by (simp_all add: okFor_Suc [of _ _ "GetInfo (IMAGE_CACHE_DIR @ n) True"])
  from Cons.IH [OF ok(2), of "acc @ [?i]"] Cons.prems(2,3)
  obtain w' where IH: "statLoop (map fst es) (acc @ [?i]) ?w2 =
      (Inr ((acc @ [?i]) @ simulated (now ?w2) (randoms ?w2) es), w')"
    "faults w' = drop (length es) (faults ?w2)"
    "calls w' = calls ?w2 @ map (\<lambda>p. GetInfo (IMAGE_CACHE_DIR @ fst p) True) es"
    "dir w' = dir ?w2" "cacheSize w' = cacheSize ?w2"
    by auto
  have "statLoop (map fst (e # es)) acc w =
          (Inr (acc @ simulated (now w) (randoms w) (e # es)), w')"
    using ok(1) Cons.prems(2) e n s IH(1)
    by (simp add: getInfoAsync_ok stat_blob Math_random_run Date_now_def)
  with IH(2-5) e show ?case
    by (intro exI [of _ w']) (simp add: drop_Suc)
qed

lemma evicted_0 [simp]: "evicted 0 infos = {}"
  by (simp add: evicted_def)

lemma evicted_Suc [simp]: "evicted (Suc k) (f # infos) = insert (fst (entry f)) (evicted k infos)"
  by (simp add: evicted_def)

text \<open>
  As long as no delete is rejected and the running total stays above the target, the
  second loop deletes entry after entry.
\<close>

lemma deleteLoop_unroll:
  assumes "dir w = Some gs" "distinct (map fst gs)" "[] \<notin> fst ` set gs"
    and "\<forall>f \<in> set infos. inStore f" "mset (map entry infos) = mset gs"
    and "j \<le> length infos" "okFor j w"
    and "\<forall>i<j. targetSize M < of_int (runningTotal c infos i)"
  shows "\<exists>wj. deleteLoop M infos c w =
              deleteLoop M (drop j infos) (runningTotal c infos j) wj \<and>
           dir wj = Some (filter (\<lambda>p. fst p \<notin> evicted j infos) gs) \<and>
           calls wj = calls w @ map (\<lambda>f. Delete (uri f) False) (take j infos) \<and>
           faults wj = drop j (faults w) \<and> cacheSize wj = cacheSize w"
  using assms
proof (induction j arbitrary: infos c w gs)
  case 0
  then show ?case
    by (intro exI [of _ w]) simp
next
  case (Suc j)
  from Suc.prems(6) obtain f rest where infos: "infos = f # rest"
    by (cases infos) auto
  obtain n s where ns: "entry f = (n, s)"
    by (cases "entry f")
  with Suc.prems(5) infos have mem: "(n, s) \<in> set gs"
    by (metis list.set_intros(1) list.simps(9) mset_eq_setD)
  with Suc.prems(3) have n: "n \<noteq> []" "n \<in> fst ` set gs"
    by force+
  from Suc.prems(4) ns infos have uri: "uri f = IMAGE_CACHE_DIR @ n"
    by (simp add: inStore_def)
  from ns have sz: "size' f = s"
    by (simp add: entry_def)
  let ?gs = "filter (\<lambda>p. fst p \<noteq> n) gs"
  let ?w1 = "(called (Delete (IMAGE_CACHE_DIR @ n) False) w)\<lparr>dir := Some ?gs\<rparr>"
  from Suc.prems(7) have ok: "\<not> nextFault w" "okFor j ?w1"
    by (simp_all add: okFor_Suc [of _ _ "Delete (IMAGE_CACHE_DIR @ n) False"])
  from Suc.prems(8) have above: "\<not> of_int c \<le> targetSize M"
    by (auto simp: not_le dest: spec [of _ 0])
  have del: "deleteAsync (uri f) False w = (Inr (), ?w1)"
    using ok(1) Suc.prems(1) n uri by (simp add: deleteAsync_blob_ok)
  have step: "deleteLoop M infos c w = deleteLoop M rest (c - int s) ?w1"
    using infos above del sz by simp
  have gs1: "distinct (map fst ?gs)" "[] \<notin> fst ` set ?gs"
    using Suc.prems(2,3) by (auto simp: distinct_map_filter)
  from Suc.prems(5) ns infos have "add_mset (n, s) (mset (map entry rest)) = mset gs"
    by simp
  then have "mset (map entry rest) = mset gs - {#(n, s)#}"
    by (metis add_mset_remove_trivial)
  then have gs2: "mset (map entry rest) = mset ?gs"
    using filter_name_mset [OF Suc.prems(2) mem] by simp
  have rest: "\<forall>f \<in> set rest. inStore f" "j \<le> length rest"
    using Suc.prems(4,6) infos by simp_all
  have run: "\<forall>i<j. targetSize M < of_int (runningTotal (c - int s) rest i)"
  proof (intro allI impI)
    fix i assume "i < j"
    then have "Suc i < Suc j" by simp
    with Suc.prems(8) have "targetSize M < of_int (runningTotal c infos (Suc i))"
      by blast
    then show "targetSize M < of_int (runningTotal (c - int s) rest i)"
      using infos sz by simp
  qed
  from Suc.IH [of ?w1 ?gs rest "c - int s", OF _ gs1 rest(1) gs2 rest(2) ok(2) run]
  obtain wj where wj: "deleteLoop M rest (c - int s) ?w1 =
      deleteLoop M (drop j rest) (runningTotal (c - int s) rest j) wj"
    "dir wj = Some (filter (\<lambda>p. fst p \<notin> evicted j rest) ?gs)"
    "calls wj = calls ?w1 @ map (\<lambda>f. Delete (uri f) False) (take j rest)"
    "faults wj = drop j (faults ?w1)" "cacheSize wj = cacheSize ?w1"
    by auto
  have "filter (\<lambda>p. fst p \<notin> evicted j rest) ?gs =
        filter (\<lambda>p. fst p \<notin> evicted (Suc j) infos) gs"
    using infos ns by (auto intro: filter_cong)
  with wj step infos sz uri show ?case
    by (intro exI [of _ wj]) (simp add: drop_Suc)
qed

lemma deleteLoop_below:
  "xs = [] \<or> of_int c \<le> targetSize M \<Longrightarrow> deleteLoop M xs c w = (Inr (), w)"
  by (cases xs) auto

text \<open>With no delete rejected, the second loop runs to its end.\<close>

lemma deleteLoop_complete:
  assumes "dir w = Some gs" "distinct (map fst gs)" "[] \<notin> fst ` set gs"
    and "\<forall>f \<in> set infos. inStore f" "mset (map entry infos) = mset gs"
    and "okFor (evictions M c infos) w"
  shows "\<exists>w'. deleteLoop M infos c w = (Inr (), w') \<and>
           dir w' = Some (filter (\<lambda>p. fst p \<notin> evicted (evictions M c infos) infos) gs) \<and>
           calls w' =
             calls w @ map (\<lambda>f. Delete (uri f) False) (take (evictions M c infos) infos) \<and>
           faults w' = drop (evictions M c infos) (faults w) \<and> cacheSize w' = cacheSize w"
proof -
  let ?k = "evictions M c infos"
  have above: "\<forall>i<?k. targetSize M < of_int (runningTotal c infos i)"
    by (simp add: evictions_above)
  from deleteLoop_unroll [OF assms(1-5) evictions_le assms(6) above]
  obtain wk where wk: "deleteLoop M infos c w =
      deleteLoop M (drop ?k infos) (runningTotal c infos ?k) wk"
    "dir wk = Some (filter (\<lambda>p. fst p \<notin> evicted ?k infos) gs)"
    "calls wk = calls w @ map (\<lambda>f. Delete (uri f) False) (take ?k infos)"
    "faults wk = drop ?k (faults w)" "cacheSize wk = cacheSize w"
    by blast
  have "drop ?k infos = [] \<or> of_int (runningTotal c infos ?k) \<le> targetSize M"
    using evictions_done [of M c infos] by auto
  from deleteLoop_below [OF this] wk show ?thesis
    by (intro exI [of _ wk]) simp
qed

subsection \<open>The deletes of a trim\<close>

lemma filter_isDelete_deletes [simp]:
  "filter isDelete (map (\<lambda>f. Delete (uri f) False) xs) = map (\<lambda>f. Delete (uri f) False) xs"
  by (induction xs) simp_all

lemma readDirectoryAsync_Inr:
  assumes "readDirectoryAsync IMAGE_CACHE_DIR w = (Inr files, w')"
  shows "\<not> nextFault w \<and> w' = called (ReadDirectory IMAGE_CACHE_DIR) w \<and>
         (\<exists>fs. dir w = Some fs \<and> files = map fst fs)"
  using assms
  by (auto simp: readDirectoryAsync_def invoke_def split: if_splits option.splits)

lemma dir_readDirectoryAsync: "dir (snd (readDirectoryAsync p w)) = dir w"
  by (simp add: readDirectoryAsync_def invoke_def split: option.splits)

lemma no_faults_drop:
  assumes "no_faults w" "faults v = drop m (faults w)"
  shows "no_faults v" "okFor k v"
  using assms by (auto simp: no_faults_def okFor_def dest: in_set_dropD in_set_takeD)

lemma dir_calculateCacheSize: "dir (snd (calculateCacheSize w)) = dir w"
  by (simp add: calculateCacheSize_def try_catch_def io_bind_def io_return_def
      getInfoAsync_def invoke_def Let_def)

text \<open>
  The deletes of a trim, in every world with distinct, non-empty blob names: they are those
  of the first \<open>k\<close> entries in the order of the simulated times, each issued while the
  running total was above the target; with no call rejected, the pass ends only when the
  entries are used up or the running total has reached the target.
\<close>

lemma trimBody_deletes:
  assumes "distinct (map fst (blobs v))" "[] \<notin> fst ` set (blobs v)"
  shows "\<exists>k\<le>length (blobs v).
     filter isDelete (calls (snd (trimBody M v))) =
       filter isDelete (calls v) @ map (\<lambda>f. Delete (uri f) False) (take k (trimOrder v)) \<and>
     (\<forall>j<k. targetSize M < of_int (runningTotal (cacheSize v) (trimOrder v) j)) \<and>
     (no_faults v \<longrightarrow>
        blobs (snd (trimBody M v)) = filter (\<lambda>p. fst p \<notin> evicted k (trimOrder v)) (blobs v) \<and>
        (k = length (blobs v) \<or>
         of_int (runningTotal (cacheSize v) (trimOrder v) k) \<le> targetSize M))"
proof -
  let ?sorted = "trimOrder v"
  let ?P = "\<lambda>k u. k \<le> length (blobs v) \<and>
     filter isDelete (calls u) =
       filter isDelete (calls v) @ map (\<lambda>f. Delete (uri f) False) (take k ?sorted) \<and>
     (\<forall>j<k. targetSize M < of_int (runningTotal (cacheSize v) ?sorted j)) \<and>
     (no_faults v \<longrightarrow>
        blobs u = filter (\<lambda>p. fst p \<notin> evicted k ?sorted) (blobs v) \<and>
        (k = length (blobs v) \<or>
         of_int (runningTotal (cacheSize v) ?sorted k) \<le> targetSize M))"
  obtain r1 w1 where rd: "readDirectoryAsync IMAGE_CACHE_DIR v = (r1, w1)"
    by (cases "readDirectoryAsync IMAGE_CACHE_DIR v")
  then have w1: "filter isDelete (calls w1) = filter isDelete (calls v)" "dir w1 = dir v"
    using calls_readDirectoryAsync [of IMAGE_CACHE_DIR v]
      dir_readDirectoryAsync [of IMAGE_CACHE_DIR v] by simp_all
  show ?thesis
  proof (cases r1)
    case (Inl e)
    with rd have body: "trimBody M v = (Inl e, w1)"
      by (simp add: trimBody_def io_bind_def)
    have "blobs v = []" if "no_faults v"
    proof (cases "dir v")
      case None
      then show ?thesis by (simp add: blobs_def)
    next
      case (Some fs)
      with that rd Inl show ?thesis
        by (simp add: readDirectoryAsync_ok)
    qed
    with body w1 have "?P 0 (snd (trimBody M v))"
      by (auto simp: blobs_def)
    then show ?thesis by blast
  next
    case (Inr files)
    from readDirectoryAsync_Inr [OF rd [unfolded Inr]]
    obtain fs where fs: "\<not> nextFault v" "w1 = called (ReadDirectory IMAGE_CACHE_DIR) v"
      "dir v = Some fs" "files = map fst fs"
      by blast
    then have blobs: "blobs v = fs"
      by (simp add: blobs_def)
    show ?thesis
    proof (cases "fs = []")
      case True
      with rd Inr fs(4) have "trimBody M v = (Inr (), w1)"
        by (simp add: trimBody_def io_bind_def io_return_def)
      with w1 True blobs fs(3) have "?P 0 (snd (trimBody M v))"
        by (simp add: blobs_def)
      then show ?thesis by blast
    next
      case False
      obtain r2 w2 where st: "statLoop files [] w1 = (r2, w2)"
        by (cases "statLoop files [] w1")
      then have w2: "filter isDelete (calls w2) = filter isDelete (calls v)"
        using statLoop_deletes [of files "[]" w1] w1(1) by simp
      have wf: "distinct (map fst fs)" "[] \<notin> fst ` set fs"
        using assms blobs by simp_all
      show ?thesis
      proof (cases r2)
        case (Inl e)
        with rd Inr fs(4) False st have body: "trimBody M v = (Inl e, w2)"
          by (simp add: trimBody_def io_bind_def)
        have "\<not> no_faults v"
        proof
          assume "no_faults v"
          then have "okFor (length fs) w1"
            using fs(2) by (simp add: no_faults_okFor)
          from statLoop_ok [OF this _ wf subset_refl, of "[]"] fs(2,3,4) st Inl
          show False by simp
        qed
        with body w2 have "?P 0 (snd (trimBody M v))"
          by simp
        then show ?thesis by blast
      next
        case infos: (Inr fileInfos)
        from statLoop_Inr_okFor [OF st [unfolded infos]] fs(4)
        have "okFor (length fs) w1" by simp
        from statLoop_ok [OF this _ wf subset_refl, of "[]"] fs(2,3,4) st infos
        have run: "fileInfos = simulated (now v) (randoms v) fs"
          "faults w2 = drop (length fs) (faults w1)" "dir w2 = Some fs"
          "cacheSize w2 = cacheSize v"
          by auto
        have sorted: "sort_key modificationTime fileInfos = ?sorted"
          by (simp add: trimOrder_def blobs run(1))
        have facts: "\<forall>f \<in> set ?sorted. inStore f" "mset (map entry ?sorted) = mset fs"
          "length ?sorted = length fs"
          using trimOrder_facts [of v] blobs by simp_all
        have body: "trimBody M v =
          (case deleteLoop M ?sorted (cacheSize v) w2 of
             (Inl e, w3) \<Rightarrow> (Inl e, w3)
           | (Inr u, w3) \<Rightarrow> (Inr (), snd (calculateCacheSize w3)))"
        proof -
          have calc: "\<exists>n. calculateCacheSize u = (Inr n, snd (calculateCacheSize u))" for u
            using calculateCacheSize_total [of u] by (cases "calculateCacheSize u") auto
          show ?thesis
            using rd Inr fs(4) False st infos run(4)
            apply (simp add: trimBody_def io_bind_def io_return_def sorted
                split: prod.splits sum.splits)
            using calc by (metis Inl_Inr_False fst_conv)
        qed
        show ?thesis
        proof (cases "no_faults v")
          case True
          let ?k = "evictions M (cacheSize v) ?sorted"
          have "faults w2 = drop (Suc (length fs)) (faults v)"
            using run(2) fs(2) by (simp add: drop_Suc)
          note nf2 = no_faults_drop [OF True this]
          from deleteLoop_complete [OF run(3) wf facts(1,2) nf2(2)]
          obtain w3 where w3: "deleteLoop M ?sorted (cacheSize v) w2 = (Inr (), w3)"
            "dir w3 = Some (filter (\<lambda>p. fst p \<notin> evicted ?k ?sorted) fs)"
            "calls w3 = calls w2 @ map (\<lambda>f. Delete (uri f) False) (take ?k ?sorted)"
            by blast
          have "?P ?k (snd (trimBody M v))"
            using w3 w2 blobs facts(3) evictions_le [of M "cacheSize v" ?sorted]
              evictions_done [of M "cacheSize v" ?sorted]
            by (simp add: body calls_calculateCacheSize blobs_def dir_calculateCacheSize
                evictions_above)
          then show ?thesis by blast
        next
          case False
          from deleteLoop_stops [of ?sorted M "cacheSize v" w2]
          obtain k where k: "k \<le> length ?sorted"
            "calls (snd (deleteLoop M ?sorted (cacheSize v) w2)) =
               calls w2 @ map (\<lambda>f. Delete (uri f) False) (take k ?sorted)"
            "\<forall>j<k. targetSize M < of_int (runningTotal (cacheSize v) ?sorted j)"
            by blast
          have "filter isDelete (calls (snd (trimBody M v))) =
                filter isDelete (calls (snd (deleteLoop M ?sorted (cacheSize v) w2)))"
            by (simp add: body calls_calculateCacheSize split: prod.splits sum.splits)
          with k w2 False facts(3) blobs have "?P k (snd (trimBody M v))"
            by simp
          then show ?thesis by blast
        qed
      qed
    qed
  qed
qed

section \<open>The claims\<close>

text \<open>
  Claim C1, as the code has it. Let the blobs of the store have distinct, non-empty names,
  and let the addition of \<^verbatim>\<open>updateCacheSize\<close> push the tracked size above the ceiling \<open>M\<close>.
  Then \<^verbatim>\<open>updateCacheSize\<close> returns normally, and the deletes made during the call are
  those of the first \<open>k\<close> entries in the order of the trim, for some \<open>k\<close>, each of them
  issued while the running total (started at the tracked size after the addition) was
  still above \<open>M * 0.7\<close>: no entry is deleted once the running total is at or below the
  target. When no collaborator call is rejected, exactly these \<open>k\<close> entries are gone from
  the store afterwards, and the pass stopped because the entries were used up or the
  running total had reached the target.

  When moreover no collaborator call is rejected, the store is not empty and the tracked
  size after the addition is not below the sum of the blob sizes, the call leaves the
  tracked size at or below \<open>M * 0.7\<close>.
\<close>

theorem C1_trim_reaches_target:
  assumes "distinct (map fst (blobs w))" "[] \<notin> fst ` set (blobs w)" "M < cacheSize w + n"
  shows "fst (updateCacheSize M n w) = Inr () \<and>
    (\<exists>k\<le>length (blobs w).
       filter isDelete (calls (snd (updateCacheSize M n w))) =
         filter isDelete (calls w) @ map (\<lambda>f. Delete (uri f) False) (take k (trimOrder w)) \<and>
       (\<forall>j<k. targetSize M < of_int (runningTotal (cacheSize w + n) (trimOrder w) j)) \<and>
       (no_faults w \<longrightarrow>
          blobs (snd (updateCacheSize M n w)) =
            filter (\<lambda>p. fst p \<notin> evicted k (trimOrder w)) (blobs w) \<and>
          (k = length (blobs w) \<or>
           of_int (runningTotal (cacheSize w + n) (trimOrder w) k) \<le> targetSize M))) \<and>
    (no_faults w \<and> blobs w \<noteq> [] \<and> int (sum_list (map snd (blobs w))) \<le> cacheSize w + n \<and>
     0 \<le> M \<longrightarrow>
       of_int (cacheSize (snd (updateCacheSize M n w))) \<le> targetSize M)"
proof -
  let ?w' = "w\<lparr>cacheSize := cacheSize w + n\<rparr>"
  have "distinct (map fst (blobs ?w'))" "[] \<notin> fst ` set (blobs ?w')"
    using assms(1,2) by simp_all
  from trimBody_deletes [OF this, of M] updateCacheSize_reaches_target [OF _ assms(1,2) _ _ _ assms(3)]
  show ?thesis
    by (simp add: updateCacheSize_trims [OF assms(3)])
qed

text \<open>
  With A and B tracked (80 MiB) and C of 40 MiB just written, the trim deletes A and B,
  keeps C and leaves 40 MiB tracked, below the target of 70 MiB.
\<close>

theorem C1_trim_reaches_target_witness:
  "MAX_CACHE_SIZE < cacheSize w_third_written + 41943040 \<and>
   no_faults w_third_written \<and>
   int (sum_list (map snd (blobs w_third_written))) \<le> cacheSize w_third_written + 41943040 \<and>
   of_int (cacheSize (snd (updateCacheSize MAX_CACHE_SIZE 41943040 w_third_written)))
     \<le> targetSize MAX_CACHE_SIZE \<and>
   filter isDelete (calls (snd (updateCacheSize MAX_CACHE_SIZE 41943040 w_third_written))) =
     [Delete (IMAGE_CACHE_DIR @ ''A'') False, Delete (IMAGE_CACHE_DIR @ ''B'') False] \<and>
   blobs (snd (updateCacheSize MAX_CACHE_SIZE 41943040 w_third_written)) =
     [(''C'', 41943040)]"
  using C1_trim_reaches_target [of w_third_written MAX_CACHE_SIZE 41943040]
  by (simp add: w_third_written_def w_three_def no_faults_def MAX_CACHE_SIZE_def blobs_def
      run_defs)

text \<open>
  Claim C1 as stated fails when a delete of the trim is rejected: the \<^verbatim>\<open>catch\<close> of
  \<^verbatim>\<open>trimCache\<close> ends the trim without a resync, and the tracked size stays at 120 MiB,
  above the target and above the ceiling.
\<close>

theorem C1_rejected_delete_counterexample:
  "fst (updateCacheSize MAX_CACHE_SIZE 41943040 w_third_written_delete_rejected) = Inr () \<and>
   cacheSize (snd (updateCacheSize MAX_CACHE_SIZE 41943040 w_third_written_delete_rejected))
     = 125829120 \<and>
   \<not> of_int (cacheSize
        (snd (updateCacheSize MAX_CACHE_SIZE 41943040 w_third_written_delete_rejected)))
      \<le> targetSize MAX_CACHE_SIZE"
  by (simp add: w_third_written_delete_rejected_def w_third_written_def w_three_def
      MAX_CACHE_SIZE_def run_defs)

text \<open>
  It also fails without any rejected call when the tracked size has drifted below the
  disk total: the running total starts at the tracked size, one delete brings it under
  the target, and the resync then reads 100 MiB plus one byte from the disk.
\<close>

lemma updateCacheSize_untracked_blob:
  "no_faults w_untracked \<and>
   cacheSize (snd (updateCacheSize MAX_CACHE_SIZE 1 w_untracked)) = 104857601 \<and>
   blobs (snd (updateCacheSize MAX_CACHE_SIZE 1 w_untracked)) = [(''Y'', 104857600), (''Z'', 1)]"
  by (simp add: w_untracked_def MAX_CACHE_SIZE_def no_faults_def blobs_def run_defs)

text \<open>
  Claim C2 fails on the code. In the scenario of the claim (ceiling 1000 bytes; A oldest,
  B, C newest, 400 bytes each; 1200 tracked) the order of deletion is the order of the
  simulated times \<^verbatim>\<open>Date.now() - Math.random() * 86400000\<close>, not of recency. When the
  random numbers give C the earliest simulated time, \<^verbatim>\<open>trimCache\<close> deletes C and B, and
  A survives. The same happens at the ceiling of the source with blobs of 40 MiB.
\<close>

theorem C2_simulated_time_evicts_newest:
  "blobs (snd (trimCache 1000 w_scenario)) = [(''A'', 400)] \<and>
   cacheSize (snd (trimCache 1000 w_scenario)) = 400 \<and>
   blobs (snd (trimCache MAX_CACHE_SIZE w_three_reversed)) = [(''A'', 41943040)]"
  by (simp add: w_scenario_def w_three_reversed_def w_three_def MAX_CACHE_SIZE_def blobs_def
      run_defs)

text \<open>
  When the random numbers happen to follow the order of writing, the code does what the
  claim says: A and B are deleted and C survives.
\<close>

lemma trimCache_lucky_order:
  "blobs (snd (trimCache MAX_CACHE_SIZE w_three)) = [(''C'', 41943040)] \<and>
   cacheSize (snd (trimCache MAX_CACHE_SIZE w_three)) = 41943040"
  by (simp add: w_three_def MAX_CACHE_SIZE_def blobs_def run_defs)

text \<open>
  Claim C3, as the code has it: when no collaborator call is rejected, \<^verbatim>\<open>clearCache\<close>
  returns normally, leaves the blob store without entries, sets the tracked size to \<open>0\<close>
  so that \<^verbatim>\<open>getCacheSizeInMB\<close> is \<open>0\<close>, and a second \<^verbatim>\<open>clearCache\<close> leaves the same
  observable state. The cache directory exists afterwards exactly when it existed before:
  an existing directory is deleted and recreated empty, a missing one is not created.
\<close>

theorem C3_clear_empties_store:
  assumes "no_faults w"
  shows "fst (clearCache w) = Inr () \<and>
         dir (snd (clearCache w)) = (if dir w = None then None else Some []) \<and>
         blobs (snd (clearCache w)) = [] \<and>
         cacheSize (snd (clearCache w)) = 0 \<and>
         getCacheSizeInMB (snd (clearCache w)) = 0 \<and>
         observable (snd (clearCache (snd (clearCache w)))) = observable (snd (clearCache w))"
proof -
  let ?w1 = "snd (clearCache w)"
  have first: "no_faults ?w1" "cacheSize ?w1 = 0"
    "dir ?w1 = (if dir w = None then None else Some [])"
    using assms by (simp_all add: clearCache_no_faults_obs)
  have second: "cacheSize (snd (clearCache ?w1)) = 0"
    "dir (snd (clearCache ?w1)) = (if dir ?w1 = None then None else Some [])"
    "isEnabled (snd (clearCache ?w1)) = isEnabled ?w1"
    "storage (snd (clearCache ?w1)) = storage ?w1"
    using first(1) by (simp_all add: clearCache_no_faults_obs)
  show ?thesis
    using first second
    by (auto simp: clearCache_total observable_def blobs_def getCacheSizeInMB_def)
qed

text \<open>
  On a store of one blob, \<^verbatim>\<open>clearCache\<close> leaves an existing, empty directory and a
  tracked size of \<open>0\<close>.
\<close>

theorem C3_clear_empties_store_witness:
  "no_faults w_one \<and> dir (snd (clearCache w_one)) = Some [] \<and>
   cacheSize (snd (clearCache w_one)) = 0 \<and> getCacheSizeInMB (snd (clearCache w_one)) = 0"
  using C3_clear_empties_store [of w_one] by (simp add: w_one_def no_faults_def)

text \<open>
  Claim C3 as stated fails where the cache directory is absent: \<^verbatim>\<open>clearCache\<close> only
  recreates a directory it found (\<^verbatim>\<open>if (dirInfo.exists)\<close>), so the directory still does
  not exist afterwards, although no call was rejected.
\<close>

theorem C3_absent_directory_counterexample:
  "no_faults w_absent \<and> dir w_absent = None \<and> fst (clearCache w_absent) = Inr () \<and>
   dir (snd (clearCache w_absent)) = None"
  by (simp add: clearCache_no_faults clearCache_total no_faults_def w_absent_def)

text \<open>
  Claim C4: when caching is disabled or the URL is empty, \<^verbatim>\<open>getCachedImageUri\<close> returns
  the URL itself and the world is unchanged: no collaborator call is recorded, and the
  tracked size and the blob store are as before.
\<close>

theorem C4_pass_through:
  "\<not> isEnabled w \<or> url = [] \<Longrightarrow> getCachedImageUri M url w = (Inr url, w)"
  by (simp add: getCachedImageUri_def)

text \<open>
  With caching disabled a URL comes back as it is, and so does the empty URL with
  caching enabled.
\<close>

theorem C4_pass_through_witness:
  "\<not> isEnabled w_disabled \<and>
   getCachedImageUri MAX_CACHE_SIZE ''http://x/b.jpg'' w_disabled =
     (Inr ''http://x/b.jpg'', w_disabled) \<and>
   isEnabled w_one \<and> getCachedImageUri MAX_CACHE_SIZE [] w_one = (Inr [], w_one)"
  using C4_pass_through [of w_disabled "''http://x/b.jpg''" MAX_CACHE_SIZE]
    C4_pass_through [of w_one "[]" MAX_CACHE_SIZE]
  by (simp add: w_disabled_def w_one_def)

text \<open>
  Claim C5, as the code has it: with caching enabled and a non-empty URL, when the
  existence check, the download or the stat of the written file is rejected,
  \<^verbatim>\<open>getCachedImageUri\<close> returns the original URL, raises nothing, and leaves the tracked
  size as it was. When none of the three is rejected it returns the path of the cached
  file, whatever happens while the size is recorded.
\<close>

theorem C5_rejected_fetch_falls_back:
  assumes "isEnabled w" "url \<noteq> []"
  shows "(missStepRejected url w \<longrightarrow>
            fst (getCachedImageUri M url w) = Inr url \<and>
            cacheSize (snd (getCachedImageUri M url w)) = cacheSize w) \<and>
         (\<not> missStepRejected url w \<longrightarrow>
            fst (getCachedImageUri M url w) = Inr (IMAGE_CACHE_DIR @ getFilenameFromUrl url))"
proof (intro conjI impI)
  assume "missStepRejected url w"
  then obtain e where e: "fst (fetchOrHit M url w) = Inl e"
    using fetchOrHit_rejected_iff by blast
  then have run: "getCachedImageUri M url w = (Inr url, snd (fetchOrHit M url w))"
    using assms
    by (cases "fetchOrHit M url w") (simp add: getCachedImageUri_def try_catch_def io_return_def)
  then show "fst (getCachedImageUri M url w) = Inr url"
    by simp
  from fetchOrHit_rejected_cacheSize [OF e] run
  show "cacheSize (snd (getCachedImageUri M url w)) = cacheSize w"
    by simp
next
  assume "\<not> missStepRejected url w"
  then obtain p where p: "fst (fetchOrHit M url w) = Inr p"
    using fetchOrHit_rejected_iff [of M url w] by (cases "fst (fetchOrHit M url w)") auto
  then have "fst (getCachedImageUri M url w) = Inr p"
    using assms
    by (cases "fetchOrHit M url w") (simp add: getCachedImageUri_def try_catch_def)
  with fetchOrHit_result [OF p]
  show "fst (getCachedImageUri M url w) = Inr (IMAGE_CACHE_DIR @ getFilenameFromUrl url)"
    by simp
qed

text \<open>
  The existence check, the download and the stat rejected in turn: each time the URL
  comes back and nothing is tracked. With no call rejected the path of the cached file
  comes back.
\<close>

theorem C5_rejected_fetch_falls_back_witness:
  "missStepRejected imageUrl w_exists_rejected \<and>
   fst (getCachedImageUri MAX_CACHE_SIZE imageUrl w_exists_rejected) = Inr imageUrl \<and>
   missStepRejected imageUrl w_download_rejected \<and>
   fst (getCachedImageUri MAX_CACHE_SIZE imageUrl w_download_rejected) = Inr imageUrl \<and>
   missStepRejected imageUrl w_stat_rejected \<and>
   fst (getCachedImageUri MAX_CACHE_SIZE imageUrl w_stat_rejected) = Inr imageUrl \<and>
   cacheSize (snd (getCachedImageUri MAX_CACHE_SIZE imageUrl w_stat_rejected)) = 0 \<and>
   \<not> missStepRejected imageUrl w_empty \<and>
   fst (getCachedImageUri MAX_CACHE_SIZE imageUrl w_empty) = Inr (IMAGE_CACHE_DIR @ ''a.jpg'')"
  using C5_rejected_fetch_falls_back [of w_exists_rejected imageUrl MAX_CACHE_SIZE]
    C5_rejected_fetch_falls_back [of w_download_rejected imageUrl MAX_CACHE_SIZE]
    C5_rejected_fetch_falls_back [of w_stat_rejected imageUrl MAX_CACHE_SIZE]
    C5_rejected_fetch_falls_back [of w_empty imageUrl MAX_CACHE_SIZE]
  by (simp add: w_exists_rejected_def w_download_rejected_def w_stat_rejected_def w_empty_def
      missStepRejected_def run_defs)

text \<open>
  Claim C5 as stated fails for a failure during size recording. \<^verbatim>\<open>updateCacheSize\<close> adds
  the size first and has its own \<^verbatim>\<open>catch\<close>, as has the trim it starts: with the listing
  of the trim rejected, \<^verbatim>\<open>getCachedImageUri\<close> returns the local file, not the URL, and
  the 2048 bytes are tracked.
\<close>

theorem C5_size_recording_counterexample:
  "fst (getCachedImageUri MAX_CACHE_SIZE imageUrl w_nearly_full_list_rejected)
     = Inr (IMAGE_CACHE_DIR @ ''a.jpg'') \<and>
   cacheSize w_nearly_full_list_rejected = 104857000 \<and>
   cacheSize (snd (getCachedImageUri MAX_CACHE_SIZE imageUrl w_nearly_full_list_rejected))
     = 104859048 \<and>
   last (calls (snd (getCachedImageUri MAX_CACHE_SIZE imageUrl w_nearly_full_list_rejected)))
     = ReadDirectory IMAGE_CACHE_DIR"
  by (simp add: w_nearly_full_list_rejected_def w_nearly_full_def MAX_CACHE_SIZE_def run_defs)

text \<open>
  Claim C6, as the code has it: \<^verbatim>\<open>trimCache\<close> returns normally in every world. Let the
  cache directory hold blobs with distinct, non-empty names; let the listing, the stats
  and the first \<open>j\<close> deletes of the trim succeed and the next delete be rejected, the
  running total being above the target at each of these \<open>j + 1\<close> entries. Then the trim
  ends at the rejected delete: that delete is the last call made, so no later entry is
  examined or deleted and no resync takes place; the store has lost the first \<open>j\<close>
  entries in the order of the trim and no other, and the tracked size is what it was
  before the trim.
\<close>

theorem C6_trim_ends_at_rejected_delete:
  assumes "dir w = Some fs" "distinct (map fst fs)" "[] \<notin> fst ` set fs"
    and "j < length fs"
    and "faults w = replicate (Suc (length fs) + j) False @ True # rest"
    and "\<forall>i\<le>j. targetSize M < of_int (runningTotal (cacheSize w) (trimOrder w) i)"
  shows "(\<forall>v. fst (trimCache M v) = Inr ()) \<and>
         calls (snd (trimCache M w)) =
           calls w @ ReadDirectory IMAGE_CACHE_DIR #
             map (\<lambda>p. GetInfo (IMAGE_CACHE_DIR @ fst p) True) fs @
             map (\<lambda>f. Delete (uri f) False) (take (Suc j) (trimOrder w)) \<and>
         blobs (snd (trimCache M w)) = filter (\<lambda>p. fst p \<notin> evicted j (trimOrder w)) fs \<and>
         cacheSize (snd (trimCache M w)) = cacheSize w"
proof -
  let ?w1 = "called (ReadDirectory IMAGE_CACHE_DIR) w"
  let ?sorted = "trimOrder w"
  from assms(1) have blobs: "blobs w = fs"
    by (simp add: blobs_def)
  from assms(4) have nonempty: "fs \<noteq> []"
    by auto
  have ok: "okFor (Suc (length fs + j)) w"
    using okFor_replicate [of w "Suc (length fs) + j"] assms(5) by simp
  then have ok1: "\<not> nextFault w" "okFor (length fs + j) ?w1"
    by (simp_all add: okFor_Suc [of _ _ "ReadDirectory IMAGE_CACHE_DIR"])
  have f1: "faults ?w1 = replicate (length fs + j) False @ True # rest"
    using assms(5) by simp
  have list: "readDirectoryAsync IMAGE_CACHE_DIR w = (Inr (map fst fs), ?w1)"
    using ok1(1) assms(1) by (rule readDirectoryAsync_ok)
  have "okFor (length fs) ?w1"
    using ok1(2) by (rule okFor_mono) simp
  from statLoop_ok [OF this _ assms(2,3) subset_refl, of "[]"] assms(1)
  obtain w2 where w2: "statLoop (map fst fs) [] ?w1 = (Inr (simulated (now w) (randoms w) fs), w2)"
    "faults w2 = drop (length fs) (faults ?w1)"
    "calls w2 = calls ?w1 @ map (\<lambda>p. GetInfo (IMAGE_CACHE_DIR @ fst p) True) fs"
    "dir w2 = Some fs" "cacheSize w2 = cacheSize w"
    by (auto simp: called_def)
  have f2: "faults w2 = replicate j False @ True # rest"
    using w2(2) f1 by simp
  have sorted: "sort_key modificationTime (simulated (now w) (randoms w) fs) = ?sorted"
    by (simp add: trimOrder_def blobs)
  have facts: "\<forall>f \<in> set ?sorted. inStore f" "mset (map entry ?sorted) = mset fs"
    "length ?sorted = length fs"
    using trimOrder_facts [of w] blobs by simp_all
  have above: "\<forall>i<j. targetSize M < of_int (runningTotal (cacheSize w2) ?sorted i)"
    using assms(6) w2(5) by simp
  have "j \<le> length ?sorted"
    using assms(4) facts(3) by simp
  from deleteLoop_unroll [OF w2(4) assms(2,3) facts(1,2) this okFor_replicate [OF f2] above]
  obtain wj where wj: "deleteLoop M ?sorted (cacheSize w2) w2 =
      deleteLoop M (drop j ?sorted) (runningTotal (cacheSize w2) ?sorted j) wj"
    "dir wj = Some (filter (\<lambda>p. fst p \<notin> evicted j ?sorted) fs)"
    "calls wj = calls w2 @ map (\<lambda>f. Delete (uri f) False) (take j ?sorted)"
    "faults wj = drop j (faults w2)" "cacheSize wj = cacheSize w2"
    by blast
  have nf: "nextFault wj"
    using wj(4) f2 by (simp add: nextFault_def)
  have high: "\<not> of_int (runningTotal (cacheSize w2) ?sorted j) \<le> targetSize M"
    using assms(6) w2(5) by (auto simp: not_le)
  have split: "drop j ?sorted = ?sorted ! j # drop (Suc j) ?sorted"
    using assms(4) facts(3) by (simp add: Cons_nth_drop_Suc)
  let ?d = "Delete (uri (?sorted ! j)) False"
  have pass: "deleteLoop M ?sorted (cacheSize w2) w2 = (Inl (Rejected ?d), called ?d wj)"
    unfolding wj(1) split by (rule deleteLoop_rejected_head [OF nf high])
  have body: "trimBody M w = (Inl (Rejected ?d), called ?d wj)"
    using list nonempty w2(1) pass
    by (simp add: trimBody_def io_bind_def sorted)
  have take: "take (Suc j) ?sorted = take j ?sorted @ [?sorted ! j]"
    using assms(4) facts(3) by (simp add: take_Suc_conv_app_nth)
  show ?thesis
    using body wj(2,3,5) w2(3,5)
    by (simp add: trimCache_run trimCache_total blobs_def take)
qed

text \<open>
  With the delete of B rejected after that of A succeeded: the trim returns with B and C
  still stored, the rejected delete of B as its last call, and 120 MiB tracked although
  80 MiB are on disk.
\<close>

theorem C6_trim_ends_at_rejected_delete_witness:
  "dir w_three_second_delete_rejected =
     Some [(''A'', 41943040), (''B'', 41943040), (''C'', 41943040)] \<and>
   faults w_three_second_delete_rejected = [False, False, False, False, False, True] \<and>
   map uri (trimOrder w_three_second_delete_rejected) =
     [IMAGE_CACHE_DIR @ ''A'', IMAGE_CACHE_DIR @ ''B'', IMAGE_CACHE_DIR @ ''C''] \<and>
   targetSize MAX_CACHE_SIZE < of_int (runningTotal (cacheSize w_three_second_delete_rejected)
      (trimOrder w_three_second_delete_rejected) (Suc 0)) \<and>
   calls (snd (trimCache MAX_CACHE_SIZE w_three_second_delete_rejected)) =
     [ReadDirectory IMAGE_CACHE_DIR,
      GetInfo (IMAGE_CACHE_DIR @ ''A'') True,
      GetInfo (IMAGE_CACHE_DIR @ ''B'') True,
      GetInfo (IMAGE_CACHE_DIR @ ''C'') True,
      Delete (IMAGE_CACHE_DIR @ ''A'') False,
      Delete (IMAGE_CACHE_DIR @ ''B'') False] \<and>
   blobs (snd (trimCache MAX_CACHE_SIZE w_three_second_delete_rejected)) =
     [(''B'', 41943040), (''C'', 41943040)] \<and>
   cacheSize (snd (trimCache MAX_CACHE_SIZE w_three_second_delete_rejected)) = 125829120"
proof -
  let ?w = w_three_second_delete_rejected
  let ?fs = "[(''A'', 41943040::nat), (''B'', 41943040), (''C'', 41943040)]"
  have world: "dir ?w = Some ?fs" "faults ?w = [False, False, False, False, False, True]"
    "calls ?w = []" "cacheSize ?w = 125829120"
    by (simp_all add: w_three_second_delete_rejected_def w_three_def)
  have order: "trimOrder ?w =
    [\<lparr>uri = IMAGE_CACHE_DIR @ ''A'', size' = 41943040, modificationTime = 1699935200000\<rparr>,
     \<lparr>uri = IMAGE_CACHE_DIR @ ''B'', size' = 41943040, modificationTime = 1699956800000\<rparr>,
     \<lparr>uri = IMAGE_CACHE_DIR @ ''C'', size' = 41943040, modificationTime = 1699978400000\<rparr>]"
    by (simp add: trimOrder_def blobs_def w_three_second_delete_rejected_def w_three_def)
  have total: "runningTotal (cacheSize ?w) (trimOrder ?w) 0 = 125829120"
    "runningTotal (cacheSize ?w) (trimOrder ?w) (Suc 0) = 83886080"
    by (simp_all add: order world(4))
  have above: "\<forall>i\<le>Suc 0. targetSize MAX_CACHE_SIZE
      < of_int (runningTotal (cacheSize ?w) (trimOrder ?w) i)"
    using total by (simp add: le_Suc_eq targetSize_MAX_CACHE_SIZE)
  have names: "evicted (Suc 0) (trimOrder ?w) = {''A''}"
    by (simp add: evicted_def order entry_def)
  from C6_trim_ends_at_rejected_delete [of ?w ?fs "Suc 0" "[]" MAX_CACHE_SIZE, OF world(1) _ _ _ _ above]
  show ?thesis
    using world total by (simp add: names order blobs_def entry_def targetSize_MAX_CACHE_SIZE)
qed

text \<open>
  Claim C6 as stated fails: with the delete of A rejected, B and C are neither examined
  nor deleted, although the running total (120 MiB) is still above the target. The single
  \<^verbatim>\<open>try\<close> block of \<^verbatim>\<open>trimCache\<close> encloses the whole loop.
\<close>

theorem C6_rejected_delete_counterexample:
  "blobs (snd (trimCache MAX_CACHE_SIZE w_three_delete_rejected)) =
     [(''A'', 41943040), (''B'', 41943040), (''C'', 41943040)] \<and>
   calls (snd (trimCache MAX_CACHE_SIZE w_three_delete_rejected)) =
     [ReadDirectory IMAGE_CACHE_DIR,
      GetInfo (IMAGE_CACHE_DIR @ ''A'') True,
      GetInfo (IMAGE_CACHE_DIR @ ''B'') True,
      GetInfo (IMAGE_CACHE_DIR @ ''C'') True,
      Delete (IMAGE_CACHE_DIR @ ''A'') False]"
  by (simp add: w_three_delete_rejected_def w_three_def MAX_CACHE_SIZE_def blobs_def run_defs)

text \<open>
  Claim C7, as the code has it. Let caching be enabled, the URL non-empty with a non-empty
  derived file name, the cache directory present without a blob of that name, the image
  available with \<open>n\<close> bytes, no collaborator call rejected, and let the tracked size plus
  \<open>n\<close> not exceed the ceiling (or \<open>n\<close> be zero: the size of an empty file is not recorded,
  \<^verbatim>\<open>if (fileInfo.exists && fileInfo.size)\<close>). Then the first call of \<^verbatim>\<open>getCachedImageUri\<close> makes three
  collaborator calls, one of them the download, stores the blob, adds \<open>n\<close> to the tracked
  size and returns the local file; a second call in sequence makes a single collaborator
  call, the existence check, returns the same local file and changes neither the tracked
  size nor the store. The two calls together make exactly one download.
\<close>

theorem C7_second_resolve_is_hit:
  assumes "isEnabled w" "url \<noteq> []" "getFilenameFromUrl url \<noteq> []" "no_faults w"
    and "dir w = Some fs" "getFilenameFromUrl url \<notin> fst ` set fs"
    and "remote w url = Some n" "n = 0 \<or> cacheSize w + int n \<le> M"
  shows "fst (getCachedImageUri M url w) = Inr (IMAGE_CACHE_DIR @ getFilenameFromUrl url) \<and>
         calls (snd (getCachedImageUri M url w)) =
           calls w @ [GetInfo (IMAGE_CACHE_DIR @ getFilenameFromUrl url) False,
                      Download url (IMAGE_CACHE_DIR @ getFilenameFromUrl url),
                      GetInfo (IMAGE_CACHE_DIR @ getFilenameFromUrl url) True] \<and>
         blobs (snd (getCachedImageUri M url w)) = writeBlob (getFilenameFromUrl url) n fs \<and>
         cacheSize (snd (getCachedImageUri M url w)) = cacheSize w + int n \<and>
         fst (getCachedImageUri M url (snd (getCachedImageUri M url w))) =
           fst (getCachedImageUri M url w) \<and>
         calls (snd (getCachedImageUri M url (snd (getCachedImageUri M url w)))) =
           calls (snd (getCachedImageUri M url w)) @
             [GetInfo (IMAGE_CACHE_DIR @ getFilenameFromUrl url) False] \<and>
         fetches (snd (getCachedImageUri M url (snd (getCachedImageUri M url w)))) =
           fetches w + 1 \<and>
         cacheSize (snd (getCachedImageUri M url (snd (getCachedImageUri M url w)))) =
           cacheSize (snd (getCachedImageUri M url w)) \<and>
         dir (snd (getCachedImageUri M url (snd (getCachedImageUri M url w)))) =
           dir (snd (getCachedImageUri M url w))"
proof -
  let ?p = "IMAGE_CACHE_DIR @ getFilenameFromUrl url"
  let ?w1 = "(called (GetInfo ?p True) (called (Download url ?p) (called (GetInfo ?p False) w)))
               \<lparr>dir := Some (writeBlob (getFilenameFromUrl url) n fs),
                 cacheSize := cacheSize w + int n\<rparr>"
  from assms(6) have absent: "map_of fs (getFilenameFromUrl url) = None"
    by (simp add: map_of_eq_None_iff)
  note first = getCachedImageUri_miss [OF assms(1-5) absent assms(7,8)]
  have w1: "isEnabled ?w1" "no_faults ?w1"
    "dir ?w1 = Some (writeBlob (getFilenameFromUrl url) n fs)"
    using assms(1,4) by simp_all
  note second = getCachedImageUri_hit [OF w1(1) assms(2,3) w1(2,3) map_of_writeBlob, of M]
  show ?thesis
    unfolding first snd_conv fst_conv second
    by (simp add: fetches_def blobs_def called_def)
qed

text \<open>On an empty cache the image is fetched once and tracked once.\<close>

theorem C7_second_resolve_is_hit_witness:
  "no_faults w_empty \<and>
   cacheSize w_empty + 2048 \<le> MAX_CACHE_SIZE \<and>
   fst (getCachedImageUri MAX_CACHE_SIZE imageUrl w_empty) = Inr (IMAGE_CACHE_DIR @ ''a.jpg'') \<and>
   blobs (snd (getCachedImageUri MAX_CACHE_SIZE imageUrl w_empty)) = [(''a.jpg'', 2048)] \<and>
   fetches (snd (getCachedImageUri MAX_CACHE_SIZE imageUrl
      (snd (getCachedImageUri MAX_CACHE_SIZE imageUrl w_empty)))) = 1 \<and>
   cacheSize (snd (getCachedImageUri MAX_CACHE_SIZE imageUrl
      (snd (getCachedImageUri MAX_CACHE_SIZE imageUrl w_empty)))) = 2048"
  using C7_second_resolve_is_hit [of w_empty imageUrl "[]" 2048 MAX_CACHE_SIZE]
  by (simp add: w_empty_def MAX_CACHE_SIZE_def no_faults_def fetches_def blobs_def run_defs)

text \<open>
  Claim C7 as stated fails when the image is larger than the ceiling: recording its size
  starts a trim, and whatever the order of the entries, the running total is still above
  the target when the trim comes to the blob just written, which is deleted. The first
  call still returns the local path; the second call misses and downloads again. No
  collaborator call is rejected and the store is empty at the start.
\<close>

theorem C7_oversized_image_counterexample:
  "no_faults w_oversized \<and> isEnabled w_oversized \<and> blobs w_oversized = [] \<and>
   fst (getCachedImageUri MAX_CACHE_SIZE imageUrl w_oversized)
     = Inr (IMAGE_CACHE_DIR @ ''a.jpg'') \<and>
   blobs (snd (getCachedImageUri MAX_CACHE_SIZE imageUrl w_oversized)) = [] \<and>
   fetches (snd (getCachedImageUri MAX_CACHE_SIZE imageUrl w_oversized)) = 1 \<and>
   fetches (snd (getCachedImageUri MAX_CACHE_SIZE imageUrl
      (snd (getCachedImageUri MAX_CACHE_SIZE imageUrl w_oversized)))) = 2"
  by (simp add: w_oversized_def w_empty_def MAX_CACHE_SIZE_def no_faults_def blobs_def
      fetches_def run_defs)

text \<open>
  Claim C8, as the code has it: \<^verbatim>\<open>getCachedImageUri\<close>, \<^verbatim>\<open>clearCache\<close> and
  \<^verbatim>\<open>calculateCacheSize\<close> return normally in every world, whatever the fault schedule
  rejects, and so do the two initialisation steps (\<^verbatim>\<open>isImageCacheEnabled\<close> and
  \<^verbatim>\<open>getCacheSizeInMB\<close> call no collaborator and have no error outcome). \<^verbatim>\<open>setEnabled\<close>
  is the exception: it rejects exactly when its settings write is rejected, and then
  leaves the flag switched in memory, the setting unwritten and the cache uncleared.
\<close>

theorem C8_errors_stay_inside:
  "(\<exists>r. fst (getCachedImageUri M url w) = Inr r) \<and>
   fst (clearCache w) = Inr () \<and>
   (\<exists>n. fst (calculateCacheSize w) = Inr n) \<and>
   fst (setupCacheDirectory w) = Inr () \<and>
   fst (loadSettings w) = Inr () \<and>
   fst (setEnabled enabled w) =
     (if nextFault w then Inl (Rejected (SetItem IMAGE_CACHE_ENABLED_KEY (toString enabled)))
      else Inr ()) \<and>
   (nextFault w \<longrightarrow>
      isEnabled (snd (setEnabled enabled w)) = enabled \<and>
      storage (snd (setEnabled enabled w)) = storage w \<and>
      dir (snd (setEnabled enabled w)) = dir w \<and>
      cacheSize (snd (setEnabled enabled w)) = cacheSize w)"
  using getCachedImageUri_total clearCache_total calculateCacheSize_total setEnabled_result
  by (simp add: setupCacheDirectory_def loadSettings_def try_catch_return_unit
      setEnabled_rejected)

text \<open>With the first call rejected, the recomputation still returns, with \<open>0\<close>.\<close>

theorem C8_errors_stay_inside_witness:
  "nextFault w_first_rejected \<and> fst (clearCache w_first_rejected) = Inr () \<and>
   fst (calculateCacheSize w_first_rejected) = Inr 0 \<and>
   fst (setEnabled True w_one) = Inr ()"
  using C8_errors_stay_inside [of MAX_CACHE_SIZE "[]" w_first_rejected True]
    C8_errors_stay_inside [of MAX_CACHE_SIZE "[]" w_one True]
  by (simp add: w_first_rejected_def w_one_def nextFault_def calculateCacheSize_def
      try_catch_def io_bind_def io_return_def getInfoAsync_def invoke_def)

text \<open>
  Claim C8 as stated fails for \<^verbatim>\<open>setEnabled\<close>: a rejected \<^verbatim>\<open>AsyncStorage.setItem\<close>
  reaches the caller.
\<close>

theorem C8_setEnabled_rejects_counterexample:
  "fst (setEnabled False w_first_rejected) =
     Inl (Rejected (SetItem IMAGE_CACHE_ENABLED_KEY ''false''))"
  by (simp add: setEnabled_result w_first_rejected_def w_one_def nextFault_def toString_def)

text \<open>
  Claim C9, as the code has it: when no collaborator call is rejected, \<^verbatim>\<open>setEnabled(false)\<close>
  returns normally, stores \<^verbatim>\<open>'false'\<close> under the settings key, and leaves the blob store
  without entries and the tracked size at \<open>0\<close>; calling \<^verbatim>\<open>setEnabled\<close> a second time with
  the same value returns normally and leaves the same observable state, and
  \<^verbatim>\<open>isImageCacheEnabled\<close> then returns the value passed.
\<close>

theorem C9_disable_clears:
  assumes "no_faults w"
  shows "fst (setEnabled False w) = Inr () \<and>
         storage (snd (setEnabled False w)) IMAGE_CACHE_ENABLED_KEY = Some ''false'' \<and>
         blobs (snd (setEnabled False w)) = [] \<and>
         cacheSize (snd (setEnabled False w)) = 0 \<and>
         fst (setEnabled enabled (snd (setEnabled enabled w))) = Inr () \<and>
         observable (snd (setEnabled enabled (snd (setEnabled enabled w)))) =
           observable (snd (setEnabled enabled w)) \<and>
         isImageCacheEnabled (snd (setEnabled enabled w)) = enabled"
  using assms
  by (auto simp: setEnabled_no_faults_obs blobs_def observable_def isImageCacheEnabled_def
      toString_def)

theorem C9_disable_clears_witness:
  "no_faults w_one \<and> blobs (snd (setEnabled False w_one)) = [] \<and>
   cacheSize (snd (setEnabled False w_one)) = 0 \<and>
   isImageCacheEnabled (snd (setEnabled False w_one)) = False"
  using C9_disable_clears [of w_one False] by (simp add: w_one_def no_faults_def)

text \<open>
  Claim C9 as stated fails when a call inside the clear is rejected: the settings write
  succeeds, the existence check of \<^verbatim>\<open>clearCache\<close> is rejected and swallowed, and
  \<^verbatim>\<open>setEnabled(false)\<close> completes with the blob still stored and the tracked size unchanged.
\<close>

theorem C9_clear_swallowed_counterexample:
  "fst (setEnabled False w_second_rejected) = Inr () \<and>
   blobs (snd (setEnabled False w_second_rejected)) = [(''a.jpg'', 5767168)] \<and>
   cacheSize (snd (setEnabled False w_second_rejected)) = 5767168"
  by (simp add: w_second_rejected_def w_one_def setEnabled_def io_bind_def setItem_def
      invoke_def nextFault_def called_def clearCache_def try_catch_def getInfoAsync_def
      io_return_def blobs_def)

text \<open>
  Claim C10: when the stat of the cache directory is rejected, \<^verbatim>\<open>calculateCacheSize\<close>
  returns \<open>0\<close> and leaves the tracked size as it was, so \<^verbatim>\<open>getCacheSizeInMB\<close> reports
  the same value as before the call.
\<close>

theorem C10_stat_failure_diverges:
  assumes "nextFault w"
  shows "fst (calculateCacheSize w) = Inr 0 \<and>
         cacheSize (snd (calculateCacheSize w)) = cacheSize w \<and>
         getCacheSizeInMB (snd (calculateCacheSize w)) = getCacheSizeInMB w"
  using assms
  by (simp add: calculateCacheSize_def try_catch_def io_bind_def io_return_def
      getInfoAsync_def invoke_def getCacheSizeInMB_def called_def)

text \<open>With 5.5 MiB tracked, the call returns \<open>0\<close> while the service still reports 5.5.\<close>

theorem C10_stat_failure_diverges_witness:
  "nextFault w_first_rejected \<and> fst (calculateCacheSize w_first_rejected) = Inr 0 \<and>
   getCacheSizeInMB (snd (calculateCacheSize w_first_rejected)) = 11 / 2"
  using C10_stat_failure_diverges [of w_first_rejected]
  by (simp add: w_first_rejected_def w_one_def nextFault_def getCacheSizeInMB_def)

end
